theory Spec2Isabelle
  imports Complex_Main
begin

section \<open>Bridge adapter parameters (\<open>bridge_to_scroll\<close>, lines 51--56)\<close>

text \<open>
  Python's \<open>hex(n)\<close> for a non-negative integer: the prefix \<open>0x\<close> followed by the
  lowercase hexadecimal digits of \<open>n\<close> without leading zeros (\<open>0x0\<close> for zero).
  \<open>Web3.to_wei\<close> only returns values between \<open>0\<close> and \<open>2^256 - 1\<close>, so the amount in
  wei is a natural number.
\<close>

definition hex_digit :: "nat \<Rightarrow> char" where
  "hex_digit d = ''0123456789abcdef'' ! d"

fun hex_digits :: "nat \<Rightarrow> string" where
  "hex_digits n = (if n < 16 then [hex_digit n] else hex_digits (n div 16) @ [hex_digit (n mod 16)])"

declare hex_digits.simps [simp del]

definition hex :: "nat \<Rightarrow> string" where
  "hex n = ''0x'' @ hex_digits n"

text \<open>\<open>str.rjust(width, fillchar)\<close>: pads on the left up to \<open>width\<close>; a longer string is
  returned unchanged.\<close>

definition rjust :: "nat \<Rightarrow> char \<Rightarrow> string \<Rightarrow> string" where
  "rjust width fillchar s = replicate (width - length s) fillchar @ s"

text \<open>The string handed to \<open>HexBytes\<close>: two literals, the amount and the address without its
  \<open>0x\<close> prefix (\<open>hex(amount_in_wei)[2:]\<close>, \<open>account.address[2:]\<close>).\<close>

definition adapter_params_hex :: "nat \<Rightarrow> string \<Rightarrow> string" where
  "adapter_params_hex amount_in_wei address =
     ''000200000000000000000000000000000000000000000000000000000000000'' @
     ''30d40000000000000000000000000000000000000000000000000000'' @
     rjust 13 (CHR ''0'') (drop 2 (hex amount_in_wei)) @
     drop 2 address"

text \<open>
  \<open>HexBytes\<close> is the constructor of the \<open>hexbytes\<close> library, which the repository imports.
  On a \<open>str\<close> it strips a leading \<open>0x\<close>/\<open>0X\<close>, left-pads the text with one \<open>0\<close> when the
  length of its argument is odd, and decodes pairs of hexadecimal digits
  (\<open>binascii.unhexlify\<close>), raising on any other character. Bytes are numbers below 256.
\<close>

datatype exn = Exception (str: string)

definition hex_value :: "char \<Rightarrow> nat option" where
  "hex_value c =
     (let k = of_char c :: nat in
      if 48 \<le> k \<and> k \<le> 57 then Some (k - 48)
      else if 97 \<le> k \<and> k \<le> 102 then Some (k - 87)
      else if 65 \<le> k \<and> k \<le> 70 then Some (k - 55)
      else None)"

fun unhexlify :: "string \<Rightarrow> exn + nat list" where
  "unhexlify [] = Inr []"
| "unhexlify [c] = Inl (Exception ''Odd-length string'')"
| "unhexlify (c # d # cs) =
     (case (hex_value c, hex_value d) of
        (Some h, Some l) \<Rightarrow>
          (case unhexlify cs of Inl e \<Rightarrow> Inl e | Inr bs \<Rightarrow> Inr ((16 * h + l) # bs))
      | _ \<Rightarrow> Inl (Exception ''Non-hexadecimal digit found''))"

definition HexBytes :: "string \<Rightarrow> exn + nat list" where
  "HexBytes hexstr =
     (let non_prefixed_hex = (if take 2 hexstr = ''0x'' \<or> take 2 hexstr = ''0X''
                              then drop 2 hexstr else hexstr);
          padded_hex = (if odd (length hexstr) then CHR ''0'' # non_prefixed_hex
                        else non_prefixed_hex)
      in unhexlify padded_hex)"

definition adapter_params :: "nat \<Rightarrow> string \<Rightarrow> exn + nat list" where
  "adapter_params amount_in_wei address = HexBytes (adapter_params_hex amount_in_wei address)"



section \<open>The outside world: chain endpoints, collaborators, the log\<close>

text \<open>
  Every call that leaves the program (a JSON-RPC request of \<open>web3\<close>, the fee-suggestion and
  receipt helpers of \<open>utils\<close>, the template library with the Solidity compiler) is answered
  by a \<open>world\<close>: for each kind of call a scripted response, indexed by the number of calls
  made so far (the \<open>clock\<close> of the state). A call either raises (\<open>Inl\<close>) or returns
  (\<open>Inr\<close>). Each call, each log line and each sleep is appended to the \<open>trace\<close>.

  A chain endpoint is the RPC URL its \<open>Web3\<close> client was built from. Python floats are
  finite here, hence rationals; the two unit conversions of \<open>web3\<close> on floats
  (\<open>float(Web3.from_wei(p, 'gwei'))\<close> and \<open>Web3.to_wei(a, 'ether')\<close>) are parameters of
  the world, as is the address derived from a private key.
\<close>

datatype call_data =
    BridgeGas int string "nat list"
  | Constructor string

record txn =
  tx_chainId :: int
  tx_nonce :: int
  tx_from :: string
  tx_gas :: int
  tx_fees :: "(string \<times> int) list"
  tx_value :: int
  tx_data :: call_data

datatype signed = Signed string txn

record receipt =
  status :: int
  contractAddress :: string

datatype level = INFO | WARNING | ERROR

datatype message =
    Bridging rat string
  | Insufficient_funds_to_bridge string
  | Exception_estimating_gas exn
  | Transaction string string
  | Successfully_bridged rat string
  | Failed_to_bridge string
  | Deploying_contract string
  | Failed_to_get_gas_price exn
  | Gas_price_too_high
  | Waiting_for_bridge
  | Failed_to_get_balance exn
  | Insufficient_funds_to_deploy string
  | Contract_deployed string
  | Failed_to_deploy string
  | Starting
  | Loaded nat
  | Deployed int
  | Failed_count int

datatype event =
    Log level message
  | Sleep nat
  | RandomSleep rat rat
  | ChainId string "exn + int"
  | GasPrice string "exn + int"
  | GetTransactionCount string string "exn + int"
  | GetBalance string string "exn + int"
  | SuggestGasFees int "exn + (string \<times> int) list option"
  | EstimateSendFee string int string "nat list" "exn + int list"
  | CompileContract "exn + string"
  | BuildTransaction string txn
  | EstimateGas string txn "exn + int"
  | SignTransaction string txn
  | SendRawTransaction string signed "exn + string"
  | WaitForReceipt string string "exn + receipt option"

record state =
  clock :: nat
  trace :: "event list"

record world =
  address_of :: "string \<Rightarrow> string"
  to_wei_ether :: "rat \<Rightarrow> nat"
  from_wei_gwei :: "int \<Rightarrow> rat"
  eth_chain_id :: "string \<Rightarrow> nat \<Rightarrow> exn + int"
  eth_gas_price :: "string \<Rightarrow> nat \<Rightarrow> exn + int"
  eth_get_transaction_count :: "string \<Rightarrow> string \<Rightarrow> nat \<Rightarrow> exn + int"
  eth_get_balance :: "string \<Rightarrow> string \<Rightarrow> nat \<Rightarrow> exn + int"
  eth_estimate_gas :: "string \<Rightarrow> txn \<Rightarrow> nat \<Rightarrow> exn + int"
  eth_send_raw_transaction :: "string \<Rightarrow> signed \<Rightarrow> nat \<Rightarrow> exn + string"
  suggest_gas_fees :: "int \<Rightarrow> nat \<Rightarrow> exn + (string \<times> int) list option"
  wait_for_transaction_receipt :: "string \<Rightarrow> string \<Rightarrow> nat \<Rightarrow> exn + receipt option"
  estimateSendFee :: "string \<Rightarrow> int \<Rightarrow> string \<Rightarrow> nat list \<Rightarrow> nat \<Rightarrow> exn + int list"
  compile_random_contract :: "int \<Rightarrow> int \<Rightarrow> nat \<Rightarrow> exn + string"

record config =
  scroll_rpc_url :: string
  eth_rpc_url :: string
  arbitrum_rpc_url :: string
  scroll_explorer_url :: string
  arbitrum_explorer_url :: string
  max_gwei :: rat
  min_length :: int
  max_length :: int
  bridge_amount :: rat
  min_sleep_time :: rat
  max_sleep_time :: rat

definition emit :: "event \<Rightarrow> state \<Rightarrow> state" where
  "emit e st = st\<lparr>trace := trace st @ [e]\<rparr>"

definition ask :: "(nat \<Rightarrow> 'r) \<Rightarrow> ('r \<Rightarrow> event) \<Rightarrow> state \<Rightarrow> 'r \<times> state" where
  "ask respond ev st =
     (respond (clock st),
      st\<lparr>clock := Suc (clock st), trace := trace st @ [ev (respond (clock st))]\<rparr>)"

text \<open>\<open>pat in s\<close> on Python strings: \<open>pat\<close> occurs in \<open>s\<close> as a contiguous substring.\<close>

fun contains :: "string \<Rightarrow> string \<Rightarrow> bool" where
  "contains [] pat = (pat = [])"
| "contains (c # cs) pat = (take (length pat) (c # cs) = pat \<or> contains cs pat)"

section \<open>\<open>bridge_to_scroll\<close>\<close>

text \<open>Lines 42--47: the suggested fee of \<open>utils.suggest_gas_fees\<close>, or the chain's gas price
  when the helper returns \<open>None\<close>.\<close>

definition bridge_fee :: "world \<Rightarrow> string \<Rightarrow> state \<Rightarrow> (exn + (string \<times> int) list) \<times> state" where
  "bridge_fee w rpc st =
     (case ask (eth_chain_id w rpc) (ChainId rpc) st of
        (Inl e, st1) \<Rightarrow> (Inl e, st1)
      | (Inr chain_id, st1) \<Rightarrow>
          (case ask (suggest_gas_fees w chain_id) (SuggestGasFees chain_id) st1 of
             (Inl e, st2) \<Rightarrow> (Inl e, st2)
           | (Inr (Some suggested_fee), st2) \<Rightarrow> (Inr suggested_fee, st2)
           | (Inr None, st2) \<Rightarrow>
               (case ask (eth_gas_price w rpc) (GasPrice rpc) st2 of
                  (Inl e, st3) \<Rightarrow> (Inl e, st3)
                | (Inr gas_price, st3) \<Rightarrow> (Inr [(''gasPrice'', gas_price)], st3))))"

text \<open>Lines 49--75: the adapter params, the fee quote of the bridge contract
  (\<open>estimateSendFee(214, b'0x0', adapter_params)\<close>) and the transaction built from them.\<close>

definition bridge_transaction ::
  "world \<Rightarrow> string \<Rightarrow> string \<Rightarrow> nat \<Rightarrow> (string \<times> int) list \<Rightarrow> state \<Rightarrow> (exn + txn) \<times> state" where
  "bridge_transaction w rpc address amount_in_wei suggested_fee st =
     (case adapter_params amount_in_wei address of
        Inl e \<Rightarrow> (Inl e, st)
      | Inr params \<Rightarrow>
          (case ask (estimateSendFee w rpc 214 ''0x0'' params)
                    (EstimateSendFee rpc 214 ''0x0'' params) st of
             (Inl e, st1) \<Rightarrow> (Inl e, st1)
           | (Inr send_fee, st1) \<Rightarrow>
               (case ask (eth_chain_id w rpc) (ChainId rpc) st1 of
                  (Inl e, st2) \<Rightarrow> (Inl e, st2)
                | (Inr chain_id, st2) \<Rightarrow>
                    (case ask (eth_get_transaction_count w rpc address)
                              (GetTransactionCount rpc address) st2 of
                       (Inl e, st3) \<Rightarrow> (Inl e, st3)
                     | (Inr nonce, st3) \<Rightarrow>
                         (let txn = \<lparr>tx_chainId = chain_id, tx_nonce = nonce, tx_from = address,
                                     tx_gas = 0, tx_fees = suggested_fee,
                                     tx_value = int amount_in_wei + sum_list send_fee,
                                     tx_data = BridgeGas 214 address params\<rparr>
                          in (Inr txn, emit (BuildTransaction rpc txn) st3))))))"

text \<open>Lines 77--103: estimate the gas, sign, send, wait for the receipt.\<close>

definition bridge_send ::
  "world \<Rightarrow> string \<Rightarrow> string \<Rightarrow> string \<Rightarrow> string \<Rightarrow> rat \<Rightarrow> txn \<Rightarrow> state \<Rightarrow> (exn + bool) \<times> state" where
  "bridge_send w rpc explorer private_key address amount txn st =
     (case ask (eth_estimate_gas w rpc txn) (EstimateGas rpc txn) st of
        (Inl e, st1) \<Rightarrow>
          (if contains (str e) ''insufficient funds''
           then (Inr False, emit (Log ERROR (Insufficient_funds_to_bridge address)) st1)
           else (Inr False, emit (Log ERROR (Exception_estimating_gas e)) st1))
      | (Inr gas, st1) \<Rightarrow>
          (let signed_txn = Signed private_key (txn\<lparr>tx_gas := gas\<rparr>);
               st2 = emit (SignTransaction private_key (txn\<lparr>tx_gas := gas\<rparr>)) st1
           in case ask (eth_send_raw_transaction w rpc signed_txn)
                       (SendRawTransaction rpc signed_txn) st2 of
                (Inl e, st3) \<Rightarrow> (Inl e, st3)
              | (Inr txn_hash, st3) \<Rightarrow>
                  (case ask (wait_for_transaction_receipt w rpc txn_hash)
                            (WaitForReceipt rpc txn_hash)
                            (emit (Log INFO (Transaction explorer txn_hash)) st3) of
                     (Inl e, st4) \<Rightarrow> (Inl e, st4)
                   | (Inr receipt, st4) \<Rightarrow>
                       (if (case receipt of None \<Rightarrow> False | Some r \<Rightarrow> status r = 1)
                        then (Inr True, emit (Log INFO (Successfully_bridged amount address)) st4)
                        else (Inr False, emit (Log ERROR (Failed_to_bridge address)) st4)))))"

definition bridge_to_scroll ::
  "world \<Rightarrow> string \<Rightarrow> string \<Rightarrow> string \<Rightarrow> rat \<Rightarrow> state \<Rightarrow> (exn + bool) \<times> state" where
  "bridge_to_scroll w arbitrum_rpc arbitrum_explorer private_key amount st =
     (let address = address_of w private_key;
          st1 = emit (Log INFO (Bridging amount address)) st;
          amount_in_wei = to_wei_ether w amount
      in case bridge_fee w arbitrum_rpc st1 of
           (Inl e, st2) \<Rightarrow> (Inl e, st2)
         | (Inr suggested_fee, st2) \<Rightarrow>
             (case bridge_transaction w arbitrum_rpc address amount_in_wei suggested_fee st2 of
                (Inl e, st3) \<Rightarrow> (Inl e, st3)
              | (Inr txn, st3) \<Rightarrow>
                  bridge_send w arbitrum_rpc arbitrum_explorer private_key address amount txn st3))"

section \<open>\<open>deploy_random_contract\<close>\<close>

text \<open>Lines 122--132: the loop on the gas price of the reference chain. It has no bound, so
  the model is a partial function: \<open>None\<close> is the loop that never ends.\<close>

partial_function (option) gas_price_gate ::
  "world \<Rightarrow> string \<Rightarrow> rat \<Rightarrow> state \<Rightarrow> (int \<times> state) option" where
  "gas_price_gate w rpc limit st =
     (case ask (eth_gas_price w rpc) (GasPrice rpc) st of
        (Inl e, st1) \<Rightarrow>
          gas_price_gate w rpc limit
            (emit (Sleep 10) (emit (Log INFO Gas_price_too_high)
               (emit (Log WARNING (Failed_to_get_gas_price e)) st1)))
      | (Inr gas_price, st1) \<Rightarrow>
          (if from_wei_gwei w gas_price \<le> limit then Some (gas_price, st1)
           else gas_price_gate w rpc limit
                  (emit (Sleep 10) (emit (Log INFO Gas_price_too_high) st1))))"

text \<open>Lines 134--164: a random template is instantiated and compiled (one call to the
  collaborators, which may raise), and the deployment transaction is built.\<close>

definition deploy_transaction ::
  "world \<Rightarrow> config \<Rightarrow> string \<Rightarrow> int \<Rightarrow> state \<Rightarrow> (exn + txn) \<times> state" where
  "deploy_transaction w cfg address gas_price st =
     (case ask (compile_random_contract w (min_length cfg) (max_length cfg)) CompileContract st of
        (Inl e, st1) \<Rightarrow> (Inl e, st1)
      | (Inr contract_bytecode, st1) \<Rightarrow>
          (case ask (eth_chain_id w (scroll_rpc_url cfg)) (ChainId (scroll_rpc_url cfg)) st1 of
             (Inl e, st2) \<Rightarrow> (Inl e, st2)
           | (Inr chain_id, st2) \<Rightarrow>
               (case ask (eth_get_transaction_count w (scroll_rpc_url cfg) address)
                         (GetTransactionCount (scroll_rpc_url cfg) address) st2 of
                  (Inl e, st3) \<Rightarrow> (Inl e, st3)
                | (Inr nonce, st3) \<Rightarrow>
                    (let txn = \<lparr>tx_chainId = chain_id, tx_nonce = nonce, tx_from = address,
                                tx_gas = 0, tx_fees = [(''gasPrice'', gas_price)],
                                tx_value = 0, tx_data = Constructor contract_bytecode\<rparr>
                     in (Inr txn, emit (BuildTransaction (scroll_rpc_url cfg) txn) st3)))))"

text \<open>Lines 181--189: the loop on the destination balance after a bridge, unbounded too.\<close>

partial_function (option) balance_wait ::
  "world \<Rightarrow> string \<Rightarrow> string \<Rightarrow> int \<Rightarrow> state \<Rightarrow> (int \<times> state) option" where
  "balance_wait w rpc address account_balance st =
     (case ask (eth_get_balance w rpc address) (GetBalance rpc address) st of
        (Inl e, st1) \<Rightarrow>
          balance_wait w rpc address account_balance
            (emit (Sleep 10) (emit (Log WARNING (Failed_to_get_balance e)) st1))
      | (Inr balance_after, st1) \<Rightarrow>
          (if balance_after > account_balance then Some (balance_after, st1)
           else balance_wait w rpc address account_balance (emit (Sleep 10) st1)))"

text \<open>Lines 191--216: estimate the gas, sign, send, wait for the receipt.\<close>

definition deploy_send ::
  "world \<Rightarrow> config \<Rightarrow> string \<Rightarrow> string \<Rightarrow> txn \<Rightarrow> state \<Rightarrow> (exn + bool) \<times> state" where
  "deploy_send w cfg private_key address txn st =
     (case ask (eth_estimate_gas w (scroll_rpc_url cfg) txn) (EstimateGas (scroll_rpc_url cfg) txn) st of
        (Inl e, st1) \<Rightarrow>
          (if contains (str e) ''insufficient funds''
           then (Inr False, emit (Log ERROR (Insufficient_funds_to_deploy address)) st1)
           else (Inr False, emit (Log ERROR (Exception_estimating_gas e)) st1))
      | (Inr gas, st1) \<Rightarrow>
          (let signed_txn = Signed private_key (txn\<lparr>tx_gas := gas\<rparr>);
               st2 = emit (SignTransaction private_key (txn\<lparr>tx_gas := gas\<rparr>)) st1
           in case ask (eth_send_raw_transaction w (scroll_rpc_url cfg) signed_txn)
                       (SendRawTransaction (scroll_rpc_url cfg) signed_txn) st2 of
                (Inl e, st3) \<Rightarrow> (Inl e, st3)
              | (Inr txn_hash, st3) \<Rightarrow>
                  (case ask (wait_for_transaction_receipt w (scroll_rpc_url cfg) txn_hash)
                            (WaitForReceipt (scroll_rpc_url cfg) txn_hash)
                            (emit (Log INFO (Transaction (scroll_explorer_url cfg) txn_hash)) st3) of
                     (Inl e, st4) \<Rightarrow> (Inl e, st4)
                   | (Inr receipt, st4) \<Rightarrow>
                       (case receipt of
                          None \<Rightarrow> (Inr False, emit (Log ERROR (Failed_to_deploy address)) st4)
                        | Some r \<Rightarrow>
                            (if status r = 1
                             then (Inr True, emit (Log INFO (Contract_deployed (contractAddress r))) st4)
                             else (Inr False, emit (Log ERROR (Failed_to_deploy address)) st4))))))"

definition deploy_random_contract ::
  "world \<Rightarrow> config \<Rightarrow> string \<Rightarrow> state \<Rightarrow> ((exn + bool) \<times> state) option" where
  "deploy_random_contract w cfg private_key st =
     (let address = address_of w private_key;
          st1 = emit (Log INFO (Deploying_contract address)) st
      in case gas_price_gate w (eth_rpc_url cfg) (max_gwei cfg) st1 of
           None \<Rightarrow> None
         | Some (gas_price, st2) \<Rightarrow>
             (case deploy_transaction w cfg address gas_price st2 of
                (Inl e, st3) \<Rightarrow> Some (Inl e, st3)
              | (Inr txn, st3) \<Rightarrow>
                  (case ask (eth_get_balance w (scroll_rpc_url cfg) address)
                            (GetBalance (scroll_rpc_url cfg) address) st3 of
                     (Inl e, st4) \<Rightarrow> Some (Inl e, st4)
                   | (Inr account_balance, st4) \<Rightarrow>
                       (if account_balance < int (to_wei_ether w (bridge_amount cfg))
                        then
                          (case bridge_to_scroll w (arbitrum_rpc_url cfg) (arbitrum_explorer_url cfg)
                                  private_key (bridge_amount cfg) st4 of
                             (Inl e, st5) \<Rightarrow> Some (Inl e, st5)
                           | (Inr bridge_result, st5) \<Rightarrow>
                               (if \<not> bridge_result then Some (Inr False, st5)
                                else
                                  (case balance_wait w (scroll_rpc_url cfg) address account_balance
                                          (emit (Log INFO Waiting_for_bridge) st5) of
                                     None \<Rightarrow> None
                                   | Some (balance_after, st6) \<Rightarrow>
                                       Some (deploy_send w cfg private_key address txn st6))))
                        else Some (deploy_send w cfg private_key address txn st4)))))"

section \<open>\<open>main\<close>\<close>

text \<open>Lines 228--238, over \<open>enumerate(private_keys)\<close>; \<open>n\<close> is \<open>len(private_keys)\<close>. An
  exception of \<open>deploy_random_contract\<close> is not caught: it ends the loop and \<open>main\<close>.\<close>

fun main_loop ::
  "world \<Rightarrow> config \<Rightarrow> nat \<Rightarrow> (nat \<times> string) list \<Rightarrow> int \<Rightarrow> state \<Rightarrow> ((exn + int) \<times> state) option" where
  "main_loop w cfg n [] total_deployed st = Some (Inr total_deployed, st)"
| "main_loop w cfg n ((index, private_key) # rest) total_deployed st =
     (case deploy_random_contract w cfg private_key st of
        None \<Rightarrow> None
      | Some (Inl e, st1) \<Rightarrow> Some (Inl e, st1)
      | Some (Inr deployed, st1) \<Rightarrow>
          main_loop w cfg n rest (total_deployed + (if deployed then 1 else 0))
            (if int index \<noteq> int n - 1
             then emit (RandomSleep (min_sleep_time cfg) (max_sleep_time cfg)) st1
             else st1))"

definition main :: "world \<Rightarrow> config \<Rightarrow> string list \<Rightarrow> state \<Rightarrow> ((exn + unit) \<times> state) option" where
  "main w cfg private_keys st =
     (let st1 = emit (Log INFO (Loaded (length private_keys))) (emit (Log INFO Starting) st)
      in case main_loop w cfg (length private_keys) (enumerate 0 private_keys) 0 st1 of
           None \<Rightarrow> None
         | Some (Inl e, st2) \<Rightarrow> Some (Inl e, st2)
         | Some (Inr total_deployed, st2) \<Rightarrow>
             (let st3 = emit (Log INFO (Deployed total_deployed)) st2;
                  total_failed = int (length private_keys) - total_deployed
              in Some (Inr (), if total_failed \<noteq> 0
                               then emit (Log INFO (Failed_count total_failed)) st3 else st3)))"

section \<open>Observations\<close>

text \<open>A reading of the gas price lets the gate through when it succeeded and its value in
  gwei is at most the ceiling (line 129). After any other reading the gate logs, sleeps ten
  seconds and reads again; \<open>gate_retry\<close> is what such a reading leaves in the trace.\<close>

definition acceptable :: "world \<Rightarrow> rat \<Rightarrow> exn + int \<Rightarrow> bool" where
  "acceptable w limit r =
     (case r of Inl e \<Rightarrow> False | Inr gas_price \<Rightarrow> from_wei_gwei w gas_price \<le> limit)"

definition gate_retry :: "string \<Rightarrow> exn + int \<Rightarrow> event list" where
  "gate_retry rpc r =
     (case r of
        Inl e \<Rightarrow> [GasPrice rpc (Inl e), Log WARNING (Failed_to_get_gas_price e),
                  Log INFO Gas_price_too_high, Sleep 10]
      | Inr gas_price \<Rightarrow> [GasPrice rpc (Inr gas_price), Log INFO Gas_price_too_high, Sleep 10])"

definition gate_retries :: "world \<Rightarrow> string \<Rightarrow> nat \<Rightarrow> nat \<Rightarrow> event list" where
  "gate_retries w rpc t k =
     concat (map (\<lambda>i. gate_retry rpc (eth_gas_price w rpc (t + i))) [0..<k])"

definition sleeps :: "event list \<Rightarrow> nat" where
  "sleeps evs = length (filter (\<lambda>e. e = Sleep 10) evs)"

text \<open>A world in which every call succeeds, a configuration and an empty initial state, to
  run the program on.\<close>

definition quiet_world :: world where
  "quiet_world =
     \<lparr>address_of = (\<lambda>private_key. ''0x'' @ private_key),
      to_wei_ether = (\<lambda>a. nat \<lfloor>a * 10 ^ 18\<rfloor>),
      from_wei_gwei = (\<lambda>p. of_int p / 10 ^ 9),
      eth_chain_id = (\<lambda>rpc t. Inr 1),
      eth_gas_price = (\<lambda>rpc t. Inr 20000000000),
      eth_get_transaction_count = (\<lambda>rpc a t. Inr 7),
      eth_get_balance = (\<lambda>rpc a t. Inr 1000000000000000000),
      eth_estimate_gas = (\<lambda>rpc tx t. Inr 21000),
      eth_send_raw_transaction = (\<lambda>rpc s t. Inr ''0xabc''),
      suggest_gas_fees = (\<lambda>chain_id t. Inr None),
      wait_for_transaction_receipt =
        (\<lambda>rpc h t. Inr (Some \<lparr>status = 1, contractAddress = ''0xC0DE''\<rparr>)),
      estimateSendFee = (\<lambda>rpc dst payload params t. Inr [100000000000000, 0]),
      compile_random_contract = (\<lambda>lo hi t. Inr ''6080'')\<rparr>"

definition demo_config :: config where
  "demo_config =
     \<lparr>scroll_rpc_url = ''scroll'', eth_rpc_url = ''eth'', arbitrum_rpc_url = ''arbitrum'',
      scroll_explorer_url = ''scrollscan/'', arbitrum_explorer_url = ''arbiscan/'',
      max_gwei = 30, min_length = 5, max_length = 10, bridge_amount = 1 / 100,
      min_sleep_time = 1, max_sleep_time = 5\<rparr>"

definition start :: state where
  "start = \<lparr>clock = 0, trace = []\<rparr>"

text \<open>The readings 50, 40 and 25 gwei, in wei.\<close>

definition falling_gas :: "string \<Rightarrow> nat \<Rightarrow> exn + int" where
  "falling_gas rpc t =
     (if t = 0 then Inr 50000000000 else if t = 1 then Inr 40000000000 else Inr 25000000000)"

text \<open>The same for the loop on the destination balance (line 187): a reading ends the wait
  when it succeeded with a balance strictly above the one recorded before the bridge.\<close>

definition increased :: "int \<Rightarrow> exn + int \<Rightarrow> bool" where
  "increased account_balance r =
     (case r of Inl e \<Rightarrow> False | Inr balance_after \<Rightarrow> balance_after > account_balance)"

definition wait_retry :: "string \<Rightarrow> string \<Rightarrow> exn + int \<Rightarrow> event list" where
  "wait_retry rpc address r =
     (case r of
        Inl e \<Rightarrow> [GetBalance rpc address (Inl e), Log WARNING (Failed_to_get_balance e), Sleep 10]
      | Inr balance_after \<Rightarrow> [GetBalance rpc address (Inr balance_after), Sleep 10])"

definition wait_retries :: "world \<Rightarrow> string \<Rightarrow> string \<Rightarrow> nat \<Rightarrow> nat \<Rightarrow> event list" where
  "wait_retries w rpc address t k =
     concat (map (\<lambda>i. wait_retry rpc address (eth_get_balance w rpc address (t + i))) [0..<k])"

text \<open>The events a run adds to the trace.\<close>

definition new_events :: "state \<Rightarrow> state \<Rightarrow> event list" where
  "new_events st st' = drop (length (trace st)) (trace st')"

text \<open>The transaction an event carries, and the two kinds of transaction of the program.\<close>

fun event_txns :: "event \<Rightarrow> txn list" where
  "event_txns (BuildTransaction rpc t) = [t]"
| "event_txns (EstimateGas rpc t r) = [t]"
| "event_txns (SignTransaction private_key t) = [t]"
| "event_txns (SendRawTransaction rpc (Signed private_key t) r) = [t]"
| "event_txns e = []"

definition is_deployment :: "txn \<Rightarrow> bool" where
  "is_deployment t = (case tx_data t of Constructor bytecode \<Rightarrow> True | BridgeGas dst a p \<Rightarrow> False)"

text \<open>What each part of the program may leave in the trace: the gate, the building of the
  deployment transaction, the bridge, the wait for the balance, and the sending of the
  deployment transaction.\<close>

definition gate_event :: "event \<Rightarrow> bool" where
  "gate_event e =
     (case e of
        GasPrice rpc r \<Rightarrow> True
      | Log l m \<Rightarrow> (case m of Failed_to_get_gas_price x \<Rightarrow> l = WARNING
                     | Gas_price_too_high \<Rightarrow> l = INFO | _ \<Rightarrow> False)
      | Sleep n \<Rightarrow> True
      | _ \<Rightarrow> False)"

definition build_event :: "event \<Rightarrow> bool" where
  "build_event e =
     (case e of
        CompileContract r \<Rightarrow> True
      | ChainId rpc r \<Rightarrow> True
      | GetTransactionCount rpc a r \<Rightarrow> True
      | BuildTransaction rpc t \<Rightarrow> is_deployment t
      | _ \<Rightarrow> False)"

definition bridge_event :: "event \<Rightarrow> bool" where
  "bridge_event e =
     (case e of
        Log l m \<Rightarrow> (case m of Bridging a x \<Rightarrow> l = INFO
                     | Insufficient_funds_to_bridge x \<Rightarrow> l = ERROR
                     | Exception_estimating_gas x \<Rightarrow> l = ERROR
                     | Transaction u h \<Rightarrow> l = INFO
                     | Successfully_bridged a x \<Rightarrow> l = INFO
                     | Failed_to_bridge x \<Rightarrow> l = ERROR
                     | _ \<Rightarrow> False)
      | ChainId rpc r \<Rightarrow> True
      | GasPrice rpc r \<Rightarrow> True
      | SuggestGasFees c r \<Rightarrow> True
      | EstimateSendFee rpc d p a r \<Rightarrow> True
      | GetTransactionCount rpc a r \<Rightarrow> True
      | BuildTransaction rpc t \<Rightarrow> \<not> is_deployment t
      | EstimateGas rpc t r \<Rightarrow> \<not> is_deployment t
      | SignTransaction k t \<Rightarrow> \<not> is_deployment t
      | SendRawTransaction rpc s r \<Rightarrow> (case s of Signed k t \<Rightarrow> \<not> is_deployment t)
      | WaitForReceipt rpc h r \<Rightarrow> True
      | _ \<Rightarrow> False)"

definition wait_event :: "event \<Rightarrow> bool" where
  "wait_event e =
     (case e of
        GetBalance rpc a r \<Rightarrow> True
      | Log l m \<Rightarrow> (case m of Failed_to_get_balance x \<Rightarrow> l = WARNING
                     | Waiting_for_bridge \<Rightarrow> l = INFO | _ \<Rightarrow> False)
      | Sleep n \<Rightarrow> True
      | _ \<Rightarrow> False)"

definition send_event :: "event \<Rightarrow> bool" where
  "send_event e =
     (case e of
        Log l m \<Rightarrow> (case m of Insufficient_funds_to_deploy x \<Rightarrow> l = ERROR
                     | Exception_estimating_gas x \<Rightarrow> l = ERROR
                     | Transaction u h \<Rightarrow> l = INFO
                     | Contract_deployed x \<Rightarrow> l = INFO
                     | Failed_to_deploy x \<Rightarrow> l = ERROR
                     | _ \<Rightarrow> False)
      | EstimateGas rpc t r \<Rightarrow> is_deployment t
      | SignTransaction k t \<Rightarrow> is_deployment t
      | SendRawTransaction rpc s r \<Rightarrow> (case s of Signed k t \<Rightarrow> is_deployment t)
      | WaitForReceipt rpc h r \<Rightarrow> True
      | _ \<Rightarrow> False)"

text \<open>Signing and sending; an estimation of gas that failed.\<close>

definition submits :: "event \<Rightarrow> bool" where
  "submits e =
     (case e of SignTransaction k t \<Rightarrow> True | SendRawTransaction rpc s r \<Rightarrow> True | _ \<Rightarrow> False)"

definition failed_estimate :: "event \<Rightarrow> bool" where
  "failed_estimate e =
     (case e of EstimateGas rpc t r \<Rightarrow> (case r of Inl x \<Rightarrow> True | Inr g \<Rightarrow> False) | _ \<Rightarrow> False)"

text \<open>An account for the runs: a private key, its address in the quiet world, and the adapter
  params of a bridge of 0.01 ether to it.\<close>

definition demo_key :: string where
  "demo_key = ''52908400098527886E0F7030069857D2E4169EE7''"

definition demo_address :: string where
  "demo_address = ''0x52908400098527886E0F7030069857D2E4169EE7''"

definition demo_params :: "nat list" where
  "demo_params =
     [0, 0, 32, 0, 0, 0, 0, 0, 0, 0, 0, 0, 0, 0, 0, 0, 0, 0, 0, 0, 0, 0, 0,
      0, 0, 0, 0, 0, 0, 0, 0, 0, 48, 212, 0, 0, 0, 0, 0, 0, 0, 0, 0, 0, 0, 0,
      0, 0, 0, 0, 0, 0, 0, 0, 0, 0, 0, 0, 0, 0, 35, 134, 242, 111, 193, 0, 0,
      82, 144, 132, 0, 9, 133, 39, 136, 110, 15, 112, 48, 6, 152, 87, 210,
      228, 22, 158, 231]"

definition sends :: "event \<Rightarrow> bool" where
  "sends e = (case e of SendRawTransaction rpc s r \<Rightarrow> True | _ \<Rightarrow> False)"

text \<open>Three properties of the events of a run with result \<open>r\<close> for the account \<open>a\<close>: a
  failed estimation is followed by one error line and the result \<open>False\<close>; the transaction
  whose estimation failed is in no signing or sending; every sending comes right after the
  successful estimation and the signing of the transaction it sends, with the estimate as
  gas limit.\<close>

definition failure_ends_run :: "string \<Rightarrow> exn + bool \<Rightarrow> event list \<Rightarrow> bool" where
  "failure_ends_run a r evs \<longleftrightarrow>
     (\<forall>pre c t e post. evs = pre @ EstimateGas c t (Inl e) # post \<longrightarrow>
        r = Inr False \<and>
        (\<exists>m. post = [Log ERROR m] \<and>
           (contains (str e) ''insufficient funds'' \<longrightarrow>
              m = (if is_deployment t then Insufficient_funds_to_deploy a
                   else Insufficient_funds_to_bridge a))))"

definition never_submitted :: "event list \<Rightarrow> bool" where
  "never_submitted evs \<longleftrightarrow>
     (\<forall>c t e. EstimateGas c t (Inl e) \<in> set evs \<longrightarrow>
        (\<forall>x\<in>set evs. submits x \<longrightarrow> (\<forall>g. t\<lparr>tx_gas := g\<rparr> \<notin> set (event_txns x))))"

definition sends_estimated :: "event list \<Rightarrow> bool" where
  "sends_estimated evs \<longleftrightarrow>
     (\<forall>pre c s h post. evs = pre @ SendRawTransaction c s h # post \<longrightarrow>
        (\<exists>pre' t g k. pre = pre' @ [EstimateGas c t (Inr g), SignTransaction k (t\<lparr>tx_gas := g\<rparr>)]
                     \<and> s = Signed k (t\<lparr>tx_gas := g\<rparr>)))"

text \<open>The parts of the trace of one account's attempt: the greeting and the gate (\<open>k\<close>
  rejected readings, then the accepted price \<open>p\<close>), and the building of the deployment
  transaction from the compiled bytecode, the chain id and the nonce.\<close>

definition deployment_txn :: "string \<Rightarrow> int \<Rightarrow> string \<Rightarrow> int \<Rightarrow> int \<Rightarrow> txn" where
  "deployment_txn a gas_price code cid n =
     \<lparr>tx_chainId = cid, tx_nonce = n, tx_from = a, tx_gas = 0,
      tx_fees = [(''gasPrice'', gas_price)], tx_value = 0, tx_data = Constructor code\<rparr>"

definition gate_part :: "world \<Rightarrow> config \<Rightarrow> string \<Rightarrow> nat \<Rightarrow> nat \<Rightarrow> int \<Rightarrow> event list" where
  "gate_part w cfg a t k p =
     Log INFO (Deploying_contract a) #
     gate_retries w (eth_rpc_url cfg) t k @ [GasPrice (eth_rpc_url cfg) (Inr p)]"

definition build_part :: "config \<Rightarrow> string \<Rightarrow> int \<Rightarrow> string \<Rightarrow> int \<Rightarrow> int \<Rightarrow> event list" where
  "build_part cfg a p code cid n =
     [CompileContract (Inr code), ChainId (scroll_rpc_url cfg) (Inr cid),
      GetTransactionCount (scroll_rpc_url cfg) a (Inr n),
      BuildTransaction (scroll_rpc_url cfg) (deployment_txn a p code cid n)]"

text \<open>A world in which every estimation of gas fails for lack of funds.\<close>

definition broke_world :: world where
  "broke_world =
     quiet_world\<lparr>eth_estimate_gas :=
       (\<lambda>rpc t c. Inl (Exception ''insufficient funds for gas * price + value''))\<rparr>"

text \<open>The deployment transaction of the account in the quiet world, its bridge transaction,
  and the final states of three runs: the deployment on \<open>broke_world\<close>, the bridge on
  \<open>quiet_world\<close>.\<close>

definition demo_deployment :: txn where
  "demo_deployment = deployment_txn demo_address 20000000000 ''6080'' 1 7"

definition demo_bridge_txn :: txn where
  "demo_bridge_txn =
     \<lparr>tx_chainId = 1, tx_nonce = 7, tx_from = demo_address, tx_gas = 0,
      tx_fees = [(''gasPrice'', 20000000000)], tx_value = 10100000000000000,
      tx_data = BridgeGas 214 demo_address demo_params\<rparr>"

definition broke_end :: state where
  "broke_end =
     \<lparr>clock = 6,
      trace = [Log INFO (Deploying_contract demo_address), GasPrice ''eth'' (Inr 20000000000),
               CompileContract (Inr ''6080''), ChainId ''scroll'' (Inr 1),
               GetTransactionCount ''scroll'' demo_address (Inr 7),
               BuildTransaction ''scroll'' demo_deployment,
               GetBalance ''scroll'' demo_address (Inr 1000000000000000000),
               EstimateGas ''scroll'' demo_deployment
                 (Inl (Exception ''insufficient funds for gas * price + value'')),
               Log ERROR (Insufficient_funds_to_deploy demo_address)]\<rparr>"

definition bridge_end :: state where
  "bridge_end =
     \<lparr>clock = 9,
      trace = [Log INFO (Bridging (1 / 100) demo_address),
               ChainId ''arbitrum'' (Inr 1), SuggestGasFees 1 (Inr None),
               GasPrice ''arbitrum'' (Inr 20000000000),
               EstimateSendFee ''arbitrum'' 214 ''0x0'' demo_params (Inr [100000000000000, 0]),
               ChainId ''arbitrum'' (Inr 1),
               GetTransactionCount ''arbitrum'' demo_address (Inr 7),
               BuildTransaction ''arbitrum'' demo_bridge_txn,
               EstimateGas ''arbitrum'' demo_bridge_txn (Inr 21000),
               SignTransaction demo_key (demo_bridge_txn\<lparr>tx_gas := 21000\<rparr>),
               SendRawTransaction ''arbitrum'' (Signed demo_key (demo_bridge_txn\<lparr>tx_gas := 21000\<rparr>))
                 (Inr ''0xabc''),
               Log INFO (Transaction ''arbiscan/'' ''0xabc''),
               WaitForReceipt ''arbitrum'' ''0xabc''
                 (Inr (Some \<lparr>status = 1, contractAddress = ''0xC0DE''\<rparr>)),
               Log INFO (Successfully_bridged (1 / 100) demo_address)]\<rparr>"

text \<open>Readings of a balance; what only the bridge leaves in the trace; the estimation,
  signing and sending of a deployment transaction.\<close>

definition balance_read :: "event \<Rightarrow> bool" where
  "balance_read e = (case e of GetBalance rpc a r \<Rightarrow> True | _ \<Rightarrow> False)"

definition bridge_mark :: "event \<Rightarrow> bool" where
  "bridge_mark e =
     (case e of
        Log l m \<Rightarrow> (case m of Bridging amount a \<Rightarrow> True | _ \<Rightarrow> False)
      | SuggestGasFees c r \<Rightarrow> True
      | EstimateSendFee rpc d p a r \<Rightarrow> True
      | _ \<Rightarrow> (\<exists>t\<in>set (event_txns e). \<not> is_deployment t))"

definition attempts_deployment :: "event \<Rightarrow> bool" where
  "attempts_deployment e =
     (case e of
        EstimateGas rpc t r \<Rightarrow> is_deployment t
      | SignTransaction k t \<Rightarrow> is_deployment t
      | SendRawTransaction rpc s r \<Rightarrow> (case s of Signed k t \<Rightarrow> is_deployment t)
      | _ \<Rightarrow> False)"

text \<open>A world in which the account has nothing on the destination chain until the bridge
  has been confirmed and the balance has been polled once in vain.\<close>

definition poor_world :: world where
  "poor_world =
     quiet_world\<lparr>eth_get_balance :=
       (\<lambda>rpc a t. if t < 15 then Inr 0 else Inr 20000000000000000)\<rparr>"

definition poor_end :: state where
  "poor_end =
     \<lparr>clock = 19,
      trace = [Log INFO (Deploying_contract demo_address), GasPrice ''eth'' (Inr 20000000000),
               CompileContract (Inr ''6080''), ChainId ''scroll'' (Inr 1),
               GetTransactionCount ''scroll'' demo_address (Inr 7),
               BuildTransaction ''scroll'' demo_deployment,
               GetBalance ''scroll'' demo_address (Inr 0)]
              @ trace bridge_end @
              [Log INFO Waiting_for_bridge,
               GetBalance ''scroll'' demo_address (Inr 0), Sleep 10,
               GetBalance ''scroll'' demo_address (Inr 20000000000000000),
               EstimateGas ''scroll'' demo_deployment (Inr 21000),
               SignTransaction demo_key (demo_deployment\<lparr>tx_gas := 21000\<rparr>),
               SendRawTransaction ''scroll'' (Signed demo_key (demo_deployment\<lparr>tx_gas := 21000\<rparr>))
                 (Inr ''0xabc''),
               Log INFO (Transaction ''scrollscan/'' ''0xabc''),
               WaitForReceipt ''scroll'' ''0xabc''
                 (Inr (Some \<lparr>status = 1, contractAddress = ''0xC0DE''\<rparr>)),
               Log INFO (Contract_deployed ''0xC0DE'')]\<rparr>"

text \<open>The run of \<open>main\<close> over the accounts. An attempt is recorded as the state it started
  in, what \<open>deploy_random_contract\<close> gave back (an exception or its boolean) and the state it
  ended in. The attempts of a run follow each other: the first starts in the given state,
  every later one starts where the one before it ended, after one \<open>random_sleep\<close>
  (lines 234--238). \<open>end_of\<close> is the state the last attempt ended in.\<close>

type_synonym attempt = "state \<times> (exn + bool) \<times> state"

definition returned :: "world \<Rightarrow> config \<Rightarrow> string \<Rightarrow> attempt \<Rightarrow> bool" where
  "returned w cfg private_key run =
     (case run of (sa, r, sb) \<Rightarrow> deploy_random_contract w cfg private_key sa = Some (r, sb))"

definition completed :: "attempt \<Rightarrow> bool" where
  "completed run = (case run of (sa, r, sb) \<Rightarrow> (case r of Inl e \<Rightarrow> False | Inr deployed \<Rightarrow> True))"

definition succeeded :: "attempt \<Rightarrow> bool" where
  "succeeded run = (case run of (sa, r, sb) \<Rightarrow> (case r of Inl e \<Rightarrow> False | Inr deployed \<Rightarrow> deployed))"

definition successes :: "attempt list \<Rightarrow> nat" where
  "successes runs = length (filter succeeded runs)"

fun follows :: "event \<Rightarrow> state \<Rightarrow> attempt list \<Rightarrow> bool" where
  "follows sep st [] = True"
| "follows sep st ((sa, r, sb) # runs) = (sa = st \<and> follows sep (emit sep sb) runs)"

fun end_of :: "state \<Rightarrow> attempt list \<Rightarrow> state" where
  "end_of st [] = st"
| "end_of st ((sa, r, sb) # runs) = end_of sb runs"

text \<open>The sleeps between the accounts, and the closing lines of \<open>main\<close> (lines 240--245) for
  \<open>n\<close> accounts and \<open>s\<close> deployed contracts.\<close>

definition inter_account_sleep :: "event \<Rightarrow> bool" where
  "inter_account_sleep e = (case e of RandomSleep lo hi \<Rightarrow> True | _ \<Rightarrow> False)"

definition tally_line :: "event \<Rightarrow> bool" where
  "tally_line e =
     (case e of
        Log l m \<Rightarrow> (case m of Deployed s \<Rightarrow> True | Failed_count f \<Rightarrow> True | _ \<Rightarrow> False)
      | _ \<Rightarrow> False)"

definition tally :: "nat \<Rightarrow> int \<Rightarrow> event list" where
  "tally n s =
     Log INFO (Deployed s) #
     (if int n - s \<noteq> 0 then [Log INFO (Failed_count (int n - s))] else [])"

definition greeting :: "nat \<Rightarrow> event list" where
  "greeting n = [Log INFO Starting, Log INFO (Loaded n)]"

definition greeted :: "nat \<Rightarrow> state \<Rightarrow> state" where
  "greeted n st = st\<lparr>trace := trace st @ greeting n\<rparr>"

definition report :: "nat \<Rightarrow> int \<Rightarrow> state \<Rightarrow> state" where
  "report n s st = st\<lparr>trace := trace st @ tally n s\<rparr>"

text \<open>What one account's attempt may leave in the trace.\<close>

definition attempt_event :: "event \<Rightarrow> bool" where
  "attempt_event e =
     (gate_event e \<or> build_event e \<or> bridge_event e \<or> wait_event e \<or> send_event e \<or>
      (case e of
         Log l m \<Rightarrow> (case m of Deploying_contract a \<Rightarrow> l = INFO | _ \<Rightarrow> False)
       | _ \<Rightarrow> False))"

text \<open>Three accounts for a run of \<open>main\<close>, and a world in which the second of them lacks the
  funds for the deployment. \<open>deployed_attempt\<close> and \<open>unfunded_attempt\<close> are what an attempt
  that deploys, and one that fails at the estimation, leave in the trace there; \<open>fleet_end\<close>
  is the state at the end of the run.\<close>

definition fleet_keys :: "string list" where
  "fleet_keys = [''a1'', ''b2'', ''c3'']"

definition mixed_world :: world where
  "mixed_world =
     quiet_world\<lparr>eth_estimate_gas :=
       (\<lambda>rpc t c. if tx_from t = ''0xb2''
                  then Inl (Exception ''insufficient funds for gas * price + value'')
                  else Inr 21000)\<rparr>"

definition deployed_attempt :: "string \<Rightarrow> event list" where
  "deployed_attempt private_key =
     (let a = ''0x'' @ private_key; t = deployment_txn a 20000000000 ''6080'' 1 7
      in [Log INFO (Deploying_contract a), GasPrice ''eth'' (Inr 20000000000),
          CompileContract (Inr ''6080''), ChainId ''scroll'' (Inr 1),
          GetTransactionCount ''scroll'' a (Inr 7), BuildTransaction ''scroll'' t,
          GetBalance ''scroll'' a (Inr 1000000000000000000),
          EstimateGas ''scroll'' t (Inr 21000),
          SignTransaction private_key (t\<lparr>tx_gas := 21000\<rparr>),
          SendRawTransaction ''scroll'' (Signed private_key (t\<lparr>tx_gas := 21000\<rparr>)) (Inr ''0xabc''),
          Log INFO (Transaction ''scrollscan/'' ''0xabc''),
          WaitForReceipt ''scroll'' ''0xabc'' (Inr (Some \<lparr>status = 1, contractAddress = ''0xC0DE''\<rparr>)),
          Log INFO (Contract_deployed ''0xC0DE'')])"

definition unfunded_attempt :: "string \<Rightarrow> event list" where
  "unfunded_attempt private_key =
     (let a = ''0x'' @ private_key; t = deployment_txn a 20000000000 ''6080'' 1 7
      in [Log INFO (Deploying_contract a), GasPrice ''eth'' (Inr 20000000000),
          CompileContract (Inr ''6080''), ChainId ''scroll'' (Inr 1),
          GetTransactionCount ''scroll'' a (Inr 7), BuildTransaction ''scroll'' t,
          GetBalance ''scroll'' a (Inr 1000000000000000000),
          EstimateGas ''scroll'' t (Inl (Exception ''insufficient funds for gas * price + value'')),
          Log ERROR (Insufficient_funds_to_deploy a)])"

definition fleet_end :: state where
  "fleet_end =
     \<lparr>clock = 22,
      trace = [Log INFO Starting, Log INFO (Loaded 3)]
              @ deployed_attempt ''a1'' @ [RandomSleep 1 5]
              @ unfunded_attempt ''b2'' @ [RandomSleep 1 5]
              @ deployed_attempt ''c3''
              @ [Log INFO (Deployed 2), Log INFO (Failed_count 1)]\<rparr>"

text \<open>A world in which the compiler fails once, at the second call of the run, and the state
  in which a run of \<open>main\<close> over two accounts ends there.\<close>

definition faulty_compiler_world :: world where
  "faulty_compiler_world =
     quiet_world\<lparr>compile_random_contract :=
       (\<lambda>lo hi t. if t = 1 then Inl (Exception ''SolcError'') else Inr ''6080'')\<rparr>"

definition abort_end :: state where
  "abort_end =
     \<lparr>clock = 2,
      trace = [Log INFO Starting, Log INFO (Loaded 2),
               Log INFO (Deploying_contract ''0xa1''), GasPrice ''eth'' (Inr 20000000000),
               CompileContract (Inl (Exception ''SolcError''))]\<rparr>"

text \<open>The state at the end of a run of \<open>main\<close> over the unfunded account alone.\<close>

definition lone_end :: state where
  "lone_end =
     \<lparr>clock = 6,
      trace = [Log INFO Starting, Log INFO (Loaded 1)] @ unfunded_attempt ''b2''
              @ [Log INFO (Deployed 0), Log INFO (Failed_count 1)]\<rparr>"

section \<open>Properties of the adapter params\<close>











section \<open>The gas-price gate\<close>

lemma gate_retries_Suc:
  "gate_retries w rpc t (Suc k) = gate_retry rpc (eth_gas_price w rpc t) @ gate_retries w rpc (Suc t) k"
proof -
  have "[0..<Suc k] = 0 # map Suc [0..<k]"
    by (simp add: upt_conv_Cons map_Suc_upt del: upt_Suc)
  then show ?thesis by (simp add: gate_retries_def comp_def del: upt_Suc)
qed

lemma gate_step_reject:
  "\<not> acceptable w limit (eth_gas_price w rpc (clock st)) \<Longrightarrow>
   gas_price_gate w rpc limit st =
   gas_price_gate w rpc limit
     (st\<lparr>clock := Suc (clock st), trace := trace st @ gate_retry rpc (eth_gas_price w rpc (clock st))\<rparr>)"
  by (subst gas_price_gate.simps)
     (auto simp: acceptable_def ask_def emit_def gate_retry_def split: sum.splits)

lemma gate_step_accept:
  "eth_gas_price w rpc (clock st) = Inr p \<Longrightarrow> from_wei_gwei w p \<le> limit \<Longrightarrow>
   gas_price_gate w rpc limit st =
   Some (p, st\<lparr>clock := Suc (clock st), trace := trace st @ [GasPrice rpc (Inr p)]\<rparr>)"
  by (subst gas_price_gate.simps) (simp add: ask_def)

lemma gate_first:
  assumes "eth_gas_price w rpc (clock st + k) = Inr p" and "from_wei_gwei w p \<le> limit"
    and "\<forall>i<k. \<not> acceptable w limit (eth_gas_price w rpc (clock st + i))"
  shows "gas_price_gate w rpc limit st =
         Some (p, st\<lparr>clock := clock st + Suc k,
                      trace := trace st @ gate_retries w rpc (clock st) k @ [GasPrice rpc (Inr p)]\<rparr>)"
  using assms
proof (induction k arbitrary: st)
  case 0
  then show ?case by (simp add: gate_step_accept gate_retries_def)
next
  case (Suc k)
  let ?st1 = "st\<lparr>clock := Suc (clock st),
                  trace := trace st @ gate_retry rpc (eth_gas_price w rpc (clock st))\<rparr>"
  have rej: "\<not> acceptable w limit (eth_gas_price w rpc (clock st))"
    using Suc.prems(3) by (metis add.right_neutral zero_less_Suc)
  have a: "eth_gas_price w rpc (clock ?st1 + k) = Inr p" using Suc.prems(1) by simp
  have b: "\<forall>i<k. \<not> acceptable w limit (eth_gas_price w rpc (clock ?st1 + i))"
  proof (intro allI impI)
    fix i assume "i < k"
    then have "Suc i < Suc k" by simp
    then have "\<not> acceptable w limit (eth_gas_price w rpc (clock st + Suc i))"
      using Suc.prems(3) by blast
    then show "\<not> acceptable w limit (eth_gas_price w rpc (clock ?st1 + i))" by simp
  qed
  show ?case
    by (simp add: gate_step_reject[OF rej] Suc.IH[OF a Suc.prems(2) b] gate_retries_Suc)
qed

lemma gate_some_acceptable:
  assumes "gas_price_gate w rpc limit st = Some y"
  shows "\<exists>k. acceptable w limit (eth_gas_price w rpc (clock st + k))"
proof (rule gas_price_gate.raw_induct[rotated 1, OF assms], goal_cases)
  case (1 gate w rpc limit st y)
  show ?case
  proof (cases "acceptable w limit (eth_gas_price w rpc (clock st))")
    case True
    then have "acceptable w limit (eth_gas_price w rpc (clock st + 0))" by simp
    then show ?thesis by blast
  next
    case False
    then obtain st1 where "gate w rpc limit st1 = Some y" "clock st1 = Suc (clock st)"
      using 1(2) by (auto simp: acceptable_def ask_def emit_def split: sum.splits if_splits)
    then obtain k where "acceptable w limit (eth_gas_price w rpc (Suc (clock st) + k))"
      using 1(1) by fastforce
    then have "acceptable w limit (eth_gas_price w rpc (clock st + Suc k))" by simp
    then show ?thesis by blast
  qed
qed

lemma gate_never:
  "\<forall>i. \<not> acceptable w limit (eth_gas_price w rpc (clock st + i)) \<Longrightarrow>
   gas_price_gate w rpc limit st = None"
  using gate_some_acceptable by (cases "gas_price_gate w rpc limit st") blast+


lemma sleeps_gate_retries: "sleeps (gate_retries w rpc t k) = k"
proof (induction k arbitrary: t)
  case 0
  then show ?case by (simp add: gate_retries_def sleeps_def)
next
  case (Suc k)
  have "sleeps (gate_retry rpc r) = 1" for r
    by (cases r) (simp_all add: gate_retry_def sleeps_def)
  then show ?case using Suc by (simp add: gate_retries_Suc sleeps_def)
qed

text \<open>
  Claim C5. Let the readings of the gas price from the current clock on be given by the
  world, and let reading \<open>k\<close> be the first that succeeds with a value of at most the ceiling.
  Then the gate returns that price right after reading \<open>k\<close>: it has made \<open>k + 1\<close> readings,
  each of the \<open>k\<close> earlier ones (failed, or above the ceiling) was followed by the log lines and
  one sleep of ten seconds, and a failed reading was never compared with the ceiling.
\<close>

theorem gas_price_gate_first_acceptable:
  assumes "eth_gas_price w rpc (clock st + k) = Inr p" and "from_wei_gwei w p \<le> limit"
    and "\<forall>i<k. \<not> acceptable w limit (eth_gas_price w rpc (clock st + i))"
  shows "gas_price_gate w rpc limit st =
           Some (p, st\<lparr>clock := clock st + Suc k,
                        trace := trace st @ gate_retries w rpc (clock st) k @ [GasPrice rpc (Inr p)]\<rparr>)
         \<and> sleeps (gate_retries w rpc (clock st) k) = k"
  using gate_first[OF assms] sleeps_gate_retries by simp

theorem gas_price_gate_first_acceptable_witness:
  "eth_gas_price (quiet_world\<lparr>eth_gas_price := falling_gas\<rparr>) ''eth'' (clock start + 2) = Inr 25000000000
   \<and> from_wei_gwei (quiet_world\<lparr>eth_gas_price := falling_gas\<rparr>) 25000000000 \<le> 30
   \<and> \<not> acceptable (quiet_world\<lparr>eth_gas_price := falling_gas\<rparr>) 30
         (eth_gas_price (quiet_world\<lparr>eth_gas_price := falling_gas\<rparr>) ''eth'' (clock start + 0))
   \<and> \<not> acceptable (quiet_world\<lparr>eth_gas_price := falling_gas\<rparr>) 30
         (eth_gas_price (quiet_world\<lparr>eth_gas_price := falling_gas\<rparr>) ''eth'' (clock start + 1))
   \<and> gas_price_gate (quiet_world\<lparr>eth_gas_price := falling_gas\<rparr>) ''eth'' 30 start =
       Some (25000000000,
             \<lparr>clock = 3,
              trace = [GasPrice ''eth'' (Inr 50000000000), Log INFO Gas_price_too_high, Sleep 10,
                       GasPrice ''eth'' (Inr 40000000000), Log INFO Gas_price_too_high, Sleep 10,
                       GasPrice ''eth'' (Inr 25000000000)]\<rparr>)
   \<and> sleeps (gate_retries (quiet_world\<lparr>eth_gas_price := falling_gas\<rparr>) ''eth'' (clock start) 2) = 2"
proof -
  let ?w = "quiet_world\<lparr>eth_gas_price := falling_gas\<rparr>"
  have a: "eth_gas_price ?w ''eth'' (clock start + 2) = Inr 25000000000"
    by (simp add: falling_gas_def start_def)
  have b: "from_wei_gwei ?w 25000000000 \<le> 30"
    by (simp add: quiet_world_def)
  have c0: "\<not> acceptable ?w 30 (eth_gas_price ?w ''eth'' (clock start + 0))"
    by (simp add: acceptable_def falling_gas_def start_def quiet_world_def)
  have c1: "\<not> acceptable ?w 30 (eth_gas_price ?w ''eth'' (clock start + 1))"
    by (simp add: acceptable_def falling_gas_def start_def quiet_world_def)
  have c: "\<forall>i<2. \<not> acceptable ?w 30 (eth_gas_price ?w ''eth'' (clock start + i))"
    using c0 c1 by (auto simp: less_Suc_eq numeral_2_eq_2)
  have "gate_retries ?w ''eth'' 0 2 =
          [GasPrice ''eth'' (Inr 50000000000), Log INFO Gas_price_too_high, Sleep 10,
           GasPrice ''eth'' (Inr 40000000000), Log INFO Gas_price_too_high, Sleep 10]"
    by (simp add: gate_retries_def gate_retry_def falling_gas_def upt_conv_Cons numeral_2_eq_2 del: upt_Suc)
  then show ?thesis
    using a b c0 c1 gas_price_gate_first_acceptable [OF a b c] by (simp add: start_def)
qed

text \<open>The gate has no timeout: when no reading is ever acceptable it never returns.\<close>

lemma gas_price_gate_never_returns:
  "\<forall>i. \<not> acceptable w limit (eth_gas_price w rpc (clock st + i)) \<Longrightarrow>
   gas_price_gate w rpc limit st = None"
  using gate_never by blast

section \<open>The two polling loops return at the first good reading\<close>

lemma wait_retries_Suc:
  "wait_retries w rpc a t (Suc k) =
     wait_retry rpc a (eth_get_balance w rpc a t) @ wait_retries w rpc a (Suc t) k"
proof -
  have "[0..<Suc k] = 0 # map Suc [0..<k]"
    by (simp add: upt_conv_Cons map_Suc_upt del: upt_Suc)
  then show ?thesis by (simp add: wait_retries_def comp_def del: upt_Suc)
qed

lemma wait_step_reject:
  "\<not> increased b0 (eth_get_balance w rpc a (clock st)) \<Longrightarrow>
   balance_wait w rpc a b0 st =
   balance_wait w rpc a b0
     (st\<lparr>clock := Suc (clock st),
         trace := trace st @ wait_retry rpc a (eth_get_balance w rpc a (clock st))\<rparr>)"
  by (subst balance_wait.simps)
     (auto simp: increased_def ask_def emit_def wait_retry_def split: sum.splits)

lemma wait_step_accept:
  "eth_get_balance w rpc a (clock st) = Inr b \<Longrightarrow> b0 < b \<Longrightarrow>
   balance_wait w rpc a b0 st =
   Some (b, st\<lparr>clock := Suc (clock st), trace := trace st @ [GetBalance rpc a (Inr b)]\<rparr>)"
  by (subst balance_wait.simps) (simp add: ask_def)

lemma wait_first:
  assumes "eth_get_balance w rpc a (clock st + k) = Inr b" and "b0 < b"
    and "\<forall>i<k. \<not> increased b0 (eth_get_balance w rpc a (clock st + i))"
  shows "balance_wait w rpc a b0 st =
         Some (b, st\<lparr>clock := clock st + Suc k,
                      trace := trace st @ wait_retries w rpc a (clock st) k @ [GetBalance rpc a (Inr b)]\<rparr>)"
  using assms
proof (induction k arbitrary: st)
  case 0
  then show ?case by (simp add: wait_step_accept wait_retries_def)
next
  case (Suc k)
  let ?st1 = "st\<lparr>clock := Suc (clock st),
                  trace := trace st @ wait_retry rpc a (eth_get_balance w rpc a (clock st))\<rparr>"
  have rej: "\<not> increased b0 (eth_get_balance w rpc a (clock st))"
    using Suc.prems(3) by (metis add.right_neutral zero_less_Suc)
  have a: "eth_get_balance w rpc a (clock ?st1 + k) = Inr b" using Suc.prems(1) by simp
  have b: "\<forall>i<k. \<not> increased b0 (eth_get_balance w rpc a (clock ?st1 + i))"
  proof (intro allI impI)
    fix i assume "i < k"
    then have "Suc i < Suc k" by simp
    then have "\<not> increased b0 (eth_get_balance w rpc a (clock st + Suc i))"
      using Suc.prems(3) by blast
    then show "\<not> increased b0 (eth_get_balance w rpc a (clock ?st1 + i))" by simp
  qed
  show ?case
    by (simp add: wait_step_reject[OF rej] Suc.IH[OF a Suc.prems(2) b] wait_retries_Suc)
qed

lemma wait_some_increased:
  assumes "balance_wait w rpc a b0 st = Some y"
  shows "\<exists>k. increased b0 (eth_get_balance w rpc a (clock st + k))"
proof (rule balance_wait.raw_induct[rotated 1, OF assms], goal_cases)
  case (1 wait w rpc a b0 st y)
  show ?case
  proof (cases "increased b0 (eth_get_balance w rpc a (clock st))")
    case True
    then have "increased b0 (eth_get_balance w rpc a (clock st + 0))" by simp
    then show ?thesis by blast
  next
    case False
    then obtain st1 where "wait w rpc a b0 st1 = Some y" "clock st1 = Suc (clock st)"
      using 1(2) by (auto simp: increased_def ask_def emit_def split: sum.splits if_splits)
    then obtain k where "increased b0 (eth_get_balance w rpc a (Suc (clock st) + k))"
      using 1(1) by fastforce
    then have "increased b0 (eth_get_balance w rpc a (clock st + Suc k))" by simp
    then show ?thesis by blast
  qed
qed

lemma first_index:
  assumes "P (k::nat)"
  obtains j where "P j" "\<forall>i<j. \<not> P i"
proof -
  have "P (LEAST j. P j)" using assms by (rule LeastI)
  moreover have "\<forall>i<(LEAST j. P j). \<not> P i" using not_less_Least by blast
  ultimately show ?thesis using that by blast
qed

lemma gate_result:
  assumes "gas_price_gate w rpc limit st = Some (p, st')"
  obtains k where "eth_gas_price w rpc (clock st + k) = Inr p" "from_wei_gwei w p \<le> limit"
    "\<forall>i<k. \<not> acceptable w limit (eth_gas_price w rpc (clock st + i))"
    "st' = st\<lparr>clock := clock st + Suc k,
              trace := trace st @ gate_retries w rpc (clock st) k @ [GasPrice rpc (Inr p)]\<rparr>"
proof -
  obtain k0 where "acceptable w limit (eth_gas_price w rpc (clock st + k0))"
    using gate_some_acceptable[OF assms] by blast
  then obtain k where k: "acceptable w limit (eth_gas_price w rpc (clock st + k))"
    "\<forall>i<k. \<not> acceptable w limit (eth_gas_price w rpc (clock st + i))"
    by (rule first_index[where P = "\<lambda>k. acceptable w limit (eth_gas_price w rpc (clock st + k))"])
  then obtain q where q: "eth_gas_price w rpc (clock st + k) = Inr q" "from_wei_gwei w q \<le> limit"
    by (auto simp: acceptable_def split: sum.splits)
  from gate_first[OF q k(2)] assms have "q = p"
    "st' = st\<lparr>clock := clock st + Suc k,
              trace := trace st @ gate_retries w rpc (clock st) k @ [GasPrice rpc (Inr p)]\<rparr>"
    by simp_all
  with q k(2) show ?thesis using that by blast
qed

lemma wait_result:
  assumes "balance_wait w rpc a b0 st = Some (b, st')"
  obtains k where "eth_get_balance w rpc a (clock st + k) = Inr b" "b0 < b"
    "\<forall>i<k. \<not> increased b0 (eth_get_balance w rpc a (clock st + i))"
    "st' = st\<lparr>clock := clock st + Suc k,
              trace := trace st @ wait_retries w rpc a (clock st) k @ [GetBalance rpc a (Inr b)]\<rparr>"
proof -
  obtain k0 where "increased b0 (eth_get_balance w rpc a (clock st + k0))"
    using wait_some_increased[OF assms] by blast
  then obtain k where k: "increased b0 (eth_get_balance w rpc a (clock st + k))"
    "\<forall>i<k. \<not> increased b0 (eth_get_balance w rpc a (clock st + i))"
    by (rule first_index[where P = "\<lambda>k. increased b0 (eth_get_balance w rpc a (clock st + k))"])
  then obtain q where q: "eth_get_balance w rpc a (clock st + k) = Inr q" "b0 < q"
    by (auto simp: increased_def split: sum.splits)
  from wait_first[OF q k(2)] assms have "q = b"
    "st' = st\<lparr>clock := clock st + Suc k,
              trace := trace st @ wait_retries w rpc a (clock st) k @ [GetBalance rpc a (Inr b)]\<rparr>"
    by simp_all
  with q k(2) show ?thesis using that by blast
qed

section \<open>The fee of the bridge transaction\<close>

text \<open>
  Claim C8, as amended. The fee is the quote of the fee-suggestion helper when it returns
  one. When it returns none, the step reads the gas price of the chain: the fee is the legacy
  quote \<open>{'gasPrice': p}\<close> when that reading returns \<open>p\<close>, and the error of the reading
  is raised when it fails.
\<close>

theorem bridge_fee_fallback:
  assumes "eth_chain_id w rpc (clock st) = Inr chain_id"
    and "suggest_gas_fees w chain_id (Suc (clock st)) = Inr quote"
  shows "fst (bridge_fee w rpc st) =
           (case quote of
              Some suggested_fee \<Rightarrow> Inr suggested_fee
            | None \<Rightarrow>
                (case eth_gas_price w rpc (clock st + 2) of
                   Inl e \<Rightarrow> Inl e
                 | Inr gas_price \<Rightarrow> Inr [(''gasPrice'', gas_price)]))"
  using assms by (simp add: bridge_fee_def ask_def split: sum.splits option.splits)

theorem bridge_fee_fallback_witness:
  "eth_chain_id quiet_world ''arbitrum'' (clock start) = Inr 1
   \<and> suggest_gas_fees quiet_world 1 (Suc (clock start)) = Inr None
   \<and> fst (bridge_fee quiet_world ''arbitrum'' start) = Inr [(''gasPrice'', 20000000000)]"
proof -
  have a: "eth_chain_id quiet_world ''arbitrum'' (clock start) = Inr 1"
    by (simp add: quiet_world_def)
  have b: "suggest_gas_fees quiet_world 1 (Suc (clock start)) = Inr None"
    by (simp add: quiet_world_def)
  show ?thesis using a b bridge_fee_fallback [OF a b] by (simp add: quiet_world_def)
qed

text \<open>
  Claim C8 as stated fails: with no quote from the helper and a gas-price reading that
  fails, the step raises (and so does \<open>bridge_to_scroll\<close>, which has no handler around it).
\<close>

theorem bridge_fee_raises_counterexample:
  "bridge_to_scroll (quiet_world\<lparr>eth_gas_price := (\<lambda>rpc t. Inl (Exception ''connection refused''))\<rparr>)
     ''arbitrum'' ''arbiscan/'' ''52908400098527886E0F7030069857D2E4169EE7'' (1 / 100) start =
   (Inl (Exception ''connection refused''),
    \<lparr>clock = 3,
     trace = [Log INFO (Bridging (1 / 100) ''0x52908400098527886E0F7030069857D2E4169EE7''),
              ChainId ''arbitrum'' (Inr 1), SuggestGasFees 1 (Inr None),
              GasPrice ''arbitrum'' (Inl (Exception ''connection refused''))]\<rparr>)"
  by (simp add: bridge_to_scroll_def bridge_fee_def ask_def emit_def quiet_world_def start_def)

section \<open>What a run leaves in the trace\<close>

lemma new_events_append [simp]: "trace st' = trace st @ evs \<Longrightarrow> new_events st st' = evs"
  by (simp add: new_events_def)

lemma gate_retries_events: "list_all gate_event (gate_retries w rpc t k)"
proof -
  have "list_all gate_event (gate_retry rpc r)" for r
    by (cases r) (simp_all add: gate_retry_def gate_event_def)
  then show ?thesis by (auto simp: gate_retries_def list_all_iff)
qed

lemma wait_retries_events: "list_all wait_event (wait_retries w rpc a t k)"
proof -
  have "list_all wait_event (wait_retry rpc a r)" for r
    by (cases r) (simp_all add: wait_retry_def wait_event_def)
  then show ?thesis by (auto simp: wait_retries_def list_all_iff)
qed

lemma bridge_fee_trace:
  assumes "bridge_fee w rpc st = (r, st')"
  shows "\<exists>evs. trace st' = trace st @ evs \<and> list_all bridge_event evs \<and> \<not> list_ex submits evs
           \<and> (\<forall>e\<in>set evs. event_txns e = [])"
  using assms
  by (auto simp: bridge_fee_def ask_def bridge_event_def submits_def
           split: sum.splits option.splits prod.splits)

lemma bridge_transaction_trace:
  assumes "bridge_transaction w rpc a n fee st = (r, st')"
  shows "\<exists>evs. trace st' = trace st @ evs \<and> list_all bridge_event evs \<and> \<not> list_ex submits evs"
  using assms
  by (auto simp: bridge_transaction_def Let_def ask_def emit_def bridge_event_def submits_def is_deployment_def
           split: sum.splits option.splits prod.splits)


text \<open>The events of lines 77--103 and of lines 191--216, by case.\<close>

lemma bridge_send_cases:
  assumes "bridge_send w rpc ex key a amt t st = (r, st')"
  obtains
    (estimation_failed) e m where "r = Inr False"
      "trace st' = trace st @ [EstimateGas rpc t (Inl e), Log ERROR m]"
      "m = (if contains (str e) ''insufficient funds'' then Insufficient_funds_to_bridge a
            else Exception_estimating_gas e)"
  | (sent) g h rest where
      "trace st' = trace st @ [EstimateGas rpc t (Inr g), SignTransaction key (t\<lparr>tx_gas := g\<rparr>),
                               SendRawTransaction rpc (Signed key (t\<lparr>tx_gas := g\<rparr>)) h] @ rest"
      "\<not> list_ex submits rest" "\<forall>e\<in>set rest. event_txns e = []" "list_all bridge_event rest"
  using assms
  by (auto simp: bridge_send_def Let_def ask_def emit_def submits_def bridge_event_def
           split: sum.splits option.splits prod.splits if_splits)

lemma deploy_send_cases:
  assumes "deploy_send w cfg key a t st = (r, st')"
  obtains
    (estimation_failed) e m where "r = Inr False"
      "trace st' = trace st @ [EstimateGas (scroll_rpc_url cfg) t (Inl e), Log ERROR m]"
      "m = (if contains (str e) ''insufficient funds'' then Insufficient_funds_to_deploy a
            else Exception_estimating_gas e)"
  | (sent) g h rest where
      "trace st' = trace st @ [EstimateGas (scroll_rpc_url cfg) t (Inr g),
                               SignTransaction key (t\<lparr>tx_gas := g\<rparr>),
                               SendRawTransaction (scroll_rpc_url cfg) (Signed key (t\<lparr>tx_gas := g\<rparr>)) h] @ rest"
      "\<not> list_ex submits rest" "\<forall>e\<in>set rest. event_txns e = []" "list_all send_event rest"
  using assms
  by (auto simp: deploy_send_def Let_def ask_def emit_def submits_def send_event_def
           split: sum.splits option.splits prod.splits if_splits)


lemma bridge_fee_quiet:
  assumes "bridge_fee w rpc st = (r, st')"
  shows "\<exists>evs. trace st' = trace st @ evs \<and> list_all bridge_event evs \<and> \<not> list_ex submits evs
           \<and> \<not> list_ex failed_estimate evs"
  using assms
  by (auto simp: bridge_fee_def ask_def bridge_event_def submits_def failed_estimate_def
           split: sum.splits option.splits prod.splits)

lemma bridge_transaction_quiet:
  assumes "bridge_transaction w rpc a n fee st = (r, st')"
  shows "\<exists>evs. trace st' = trace st @ evs \<and> list_all bridge_event evs \<and> \<not> list_ex submits evs
           \<and> \<not> list_ex failed_estimate evs \<and> (\<forall>t. r = Inr t \<longrightarrow> \<not> is_deployment t)"
  using assms
  by (auto simp: bridge_transaction_def Let_def ask_def emit_def bridge_event_def submits_def
                 is_deployment_def failed_estimate_def
           split: sum.splits option.splits prod.splits)

lemma bridge_to_scroll_cases:
  assumes "bridge_to_scroll w rpc ex key amt st = (r, st')"
  obtains
    (early) x evs where "r = Inl x" "trace st' = trace st @ evs" "list_all bridge_event evs"
      "\<not> list_ex submits evs" "\<not> list_ex failed_estimate evs"
  | (estimation_failed) pre t e m where "r = Inr False"
      "trace st' = trace st @ pre @ [EstimateGas rpc t (Inl e), Log ERROR m]"
      "m = (if contains (str e) ''insufficient funds''
            then Insufficient_funds_to_bridge (address_of w key) else Exception_estimating_gas e)"
      "list_all bridge_event pre" "\<not> list_ex submits pre" "\<not> list_ex failed_estimate pre"
      "\<not> is_deployment t"
  | (sent) pre t g h rest where
      "trace st' = trace st @ pre @ [EstimateGas rpc t (Inr g), SignTransaction key (t\<lparr>tx_gas := g\<rparr>),
                               SendRawTransaction rpc (Signed key (t\<lparr>tx_gas := g\<rparr>)) h] @ rest"
      "list_all bridge_event pre" "\<not> list_ex submits pre" "\<not> list_ex failed_estimate pre"
      "\<not> list_ex submits rest" "\<forall>e\<in>set rest. event_txns e = []" "list_all bridge_event rest"
      "\<not> is_deployment t"
proof -
  let ?a = "address_of w key"
  let ?st1 = "emit (Log INFO (Bridging amt ?a)) st"
  have t1: "trace ?st1 = trace st @ [Log INFO (Bridging amt ?a)]" by (simp add: emit_def)
  obtain r2 st2 where fee: "bridge_fee w rpc ?st1 = (r2, st2)" by (cases "bridge_fee w rpc ?st1")
  from bridge_fee_quiet[OF fee] obtain ev2 where ev2: "trace st2 = trace ?st1 @ ev2"
    "list_all bridge_event ev2" "\<not> list_ex submits ev2" "\<not> list_ex failed_estimate ev2" by blast
  have b0: "bridge_event (Log INFO (Bridging amt ?a))" "\<not> submits (Log INFO (Bridging amt ?a))"
    "\<not> failed_estimate (Log INFO (Bridging amt ?a))"
    by (simp_all add: bridge_event_def submits_def failed_estimate_def)
  show ?thesis
  proof (cases r2)
    case (Inl x)
    then have "r = Inl x" "st' = st2" using assms fee by (simp_all add: bridge_to_scroll_def Let_def)
    then show ?thesis using early[of x "Log INFO (Bridging amt ?a) # ev2"] ev2 t1 b0 by simp
  next
    case (Inr fee_quote)
    obtain r3 st3 where tx: "bridge_transaction w rpc ?a (to_wei_ether w amt) fee_quote st2 = (r3, st3)"
      by (cases "bridge_transaction w rpc ?a (to_wei_ether w amt) fee_quote st2")
    from bridge_transaction_quiet[OF tx] obtain ev3 where ev3: "trace st3 = trace st2 @ ev3"
      "list_all bridge_event ev3" "\<not> list_ex submits ev3" "\<not> list_ex failed_estimate ev3"
      "\<forall>t. r3 = Inr t \<longrightarrow> \<not> is_deployment t" by blast
    show ?thesis
    proof (cases r3)
      case (Inl x)
      then have "r = Inl x" "st' = st3"
        using assms fee tx Inr by (simp_all add: bridge_to_scroll_def Let_def)
      then show ?thesis
        using early[of x "Log INFO (Bridging amt ?a) # ev2 @ ev3"] ev2 ev3 t1 b0 by simp
    next
      case (Inr t)
      then have send: "bridge_send w rpc ex key ?a amt t st3 = (r, st')"
        using assms fee tx \<open>r2 = Inr fee_quote\<close> by (simp add: bridge_to_scroll_def Let_def)
      have nd: "\<not> is_deployment t" using ev3(5) Inr by simp
      have pre: "trace st3 = trace st @ (Log INFO (Bridging amt ?a) # ev2 @ ev3)"
        using ev2 ev3 t1 by simp
      from send show ?thesis
      proof (cases rule: bridge_send_cases)
        case (estimation_failed e m)
        then show ?thesis
          using that(2)[of "Log INFO (Bridging amt ?a) # ev2 @ ev3" t e m] pre ev2 ev3 b0 nd by simp
      next
        case (sent g h rest)
        then show ?thesis
          using that(3)[of "Log INFO (Bridging amt ?a) # ev2 @ ev3" t g h rest] pre ev2 ev3 b0 nd
          by simp
      qed
    qed
  qed
qed

lemma deploy_transaction_cases:
  assumes "deploy_transaction w cfg a p st = (r, st')"
  obtains
    (raised) x evs where "r = Inl x" "trace st' = trace st @ evs" "list_all build_event evs"
      "\<forall>e\<in>set evs. event_txns e = []"
  | (built) code cid n where
      "r = Inr \<lparr>tx_chainId = cid, tx_nonce = n, tx_from = a, tx_gas = 0,
               tx_fees = [(''gasPrice'', p)], tx_value = 0, tx_data = Constructor code\<rparr>"
      "trace st' = trace st @
         [CompileContract (Inr code), ChainId (scroll_rpc_url cfg) (Inr cid),
          GetTransactionCount (scroll_rpc_url cfg) a (Inr n),
          BuildTransaction (scroll_rpc_url cfg)
            \<lparr>tx_chainId = cid, tx_nonce = n, tx_from = a, tx_gas = 0,
             tx_fees = [(''gasPrice'', p)], tx_value = 0, tx_data = Constructor code\<rparr>]"
      "clock st' = clock st + 3"
  using assms
  by (auto simp: deploy_transaction_def Let_def ask_def emit_def build_event_def
           split: sum.splits prod.splits)

lemma deploy_random_contract_cases:
  assumes "deploy_random_contract w cfg key st = Some (r, st')"
  obtains
    (build_raised) p st2 x where
      "gas_price_gate w (eth_rpc_url cfg) (max_gwei cfg)
         (emit (Log INFO (Deploying_contract (address_of w key))) st) = Some (p, st2)"
      "deploy_transaction w cfg (address_of w key) p st2 = (Inl x, st')" "r = Inl x"
  | (balance_raised) p st2 t st3 x where
      "gas_price_gate w (eth_rpc_url cfg) (max_gwei cfg)
         (emit (Log INFO (Deploying_contract (address_of w key))) st) = Some (p, st2)"
      "deploy_transaction w cfg (address_of w key) p st2 = (Inr t, st3)"
      "eth_get_balance w (scroll_rpc_url cfg) (address_of w key) (clock st3) = Inl x"
      "trace st' = trace st3 @ [GetBalance (scroll_rpc_url cfg) (address_of w key) (Inl x)]"
      "r = Inl x"
  | (funded) p st2 t st3 b0 st4 where
      "gas_price_gate w (eth_rpc_url cfg) (max_gwei cfg)
         (emit (Log INFO (Deploying_contract (address_of w key))) st) = Some (p, st2)"
      "deploy_transaction w cfg (address_of w key) p st2 = (Inr t, st3)"
      "eth_get_balance w (scroll_rpc_url cfg) (address_of w key) (clock st3) = Inr b0"
      "\<not> b0 < int (to_wei_ether w (bridge_amount cfg))"
      "trace st4 = trace st3 @ [GetBalance (scroll_rpc_url cfg) (address_of w key) (Inr b0)]"
      "deploy_send w cfg key (address_of w key) t st4 = (r, st')"
  | (bridge_failed) p st2 t st3 b0 st4 where
      "gas_price_gate w (eth_rpc_url cfg) (max_gwei cfg)
         (emit (Log INFO (Deploying_contract (address_of w key))) st) = Some (p, st2)"
      "deploy_transaction w cfg (address_of w key) p st2 = (Inr t, st3)"
      "eth_get_balance w (scroll_rpc_url cfg) (address_of w key) (clock st3) = Inr b0"
      "b0 < int (to_wei_ether w (bridge_amount cfg))"
      "trace st4 = trace st3 @ [GetBalance (scroll_rpc_url cfg) (address_of w key) (Inr b0)]"
      "bridge_to_scroll w (arbitrum_rpc_url cfg) (arbitrum_explorer_url cfg) key (bridge_amount cfg) st4
         = (r, st')"
      "r \<noteq> Inr True"
  | (bridged) p st2 t st3 b0 st4 st5 b1 st6 where
      "gas_price_gate w (eth_rpc_url cfg) (max_gwei cfg)
         (emit (Log INFO (Deploying_contract (address_of w key))) st) = Some (p, st2)"
      "deploy_transaction w cfg (address_of w key) p st2 = (Inr t, st3)"
      "eth_get_balance w (scroll_rpc_url cfg) (address_of w key) (clock st3) = Inr b0"
      "b0 < int (to_wei_ether w (bridge_amount cfg))"
      "trace st4 = trace st3 @ [GetBalance (scroll_rpc_url cfg) (address_of w key) (Inr b0)]"
      "bridge_to_scroll w (arbitrum_rpc_url cfg) (arbitrum_explorer_url cfg) key (bridge_amount cfg) st4
         = (Inr True, st5)"
      "balance_wait w (scroll_rpc_url cfg) (address_of w key) b0
         (emit (Log INFO Waiting_for_bridge) st5) = Some (b1, st6)"
      "deploy_send w cfg key (address_of w key) t st6 = (r, st')"
proof -
  let ?a = "address_of w key"
  let ?scroll = "scroll_rpc_url cfg"
  let ?st1 = "emit (Log INFO (Deploying_contract ?a)) st"
  obtain p st2 where gate:
    "gas_price_gate w (eth_rpc_url cfg) (max_gwei cfg) ?st1 = Some (p, st2)"
    using assms by (auto simp: deploy_random_contract_def Let_def split: option.splits)
  obtain rt st3 where build: "deploy_transaction w cfg ?a p st2 = (rt, st3)"
    by (cases "deploy_transaction w cfg ?a p st2")
  show ?thesis
  proof (cases rt)
    case (Inl x)
    then have "r = Inl x" "st' = st3"
      using assms gate build by (simp_all add: deploy_random_contract_def Let_def)
    then show ?thesis using build_raised[of p st2 x] gate build Inl by simp
  next
    case (Inr t)
    define st4 where "st4 = snd (ask (eth_get_balance w ?scroll ?a) (GetBalance ?scroll ?a) st3)"
    have ask4: "ask (eth_get_balance w ?scroll ?a) (GetBalance ?scroll ?a) st3 =
                  (eth_get_balance w ?scroll ?a (clock st3), st4)"
      by (simp add: st4_def ask_def)
    have tr4: "trace st4 = trace st3 @ [GetBalance ?scroll ?a (eth_get_balance w ?scroll ?a (clock st3))]"
      by (simp add: st4_def ask_def)
    show ?thesis
    proof (cases "eth_get_balance w ?scroll ?a (clock st3)")
      case (Inl x)
      then have "r = Inl x" "st' = st4"
        using assms gate build Inr ask4 by (simp_all add: deploy_random_contract_def Let_def)
      then show ?thesis using balance_raised[of p st2 t st3 x] gate build Inr Inl tr4 by simp
    next
      case bal: (Inr b0)
      show ?thesis
      proof (cases "b0 < int (to_wei_ether w (bridge_amount cfg))")
        case False
        then have "deploy_send w cfg key ?a t st4 = (r, st')"
          using assms gate build Inr ask4 bal by (simp add: deploy_random_contract_def Let_def)
        then show ?thesis using funded[of p st2 t st3 b0 st4] gate build Inr bal False tr4 by simp
      next
        case True
        obtain rb st5 where bridge:
          "bridge_to_scroll w (arbitrum_rpc_url cfg) (arbitrum_explorer_url cfg) key
             (bridge_amount cfg) st4 = (rb, st5)"
          by (cases "bridge_to_scroll w (arbitrum_rpc_url cfg) (arbitrum_explorer_url cfg) key
             (bridge_amount cfg) st4")
        show ?thesis
        proof (cases "rb = Inr True")
          case False
          then have "r = rb" "st' = st5"
            using assms gate build Inr ask4 bal True bridge
            by (auto simp: deploy_random_contract_def Let_def split: sum.splits)
          then show ?thesis
            using bridge_failed[of p st2 t st3 b0 st4] gate build Inr bal True tr4 bridge False
            by simp
        next
          case rbT: True
          then obtain b1 st6 where wait:
            "balance_wait w ?scroll ?a b0 (emit (Log INFO Waiting_for_bridge) st5) = Some (b1, st6)"
            and send: "deploy_send w cfg key ?a t st6 = (r, st')"
            using assms gate build Inr ask4 bal True bridge
            by (auto simp: deploy_random_contract_def Let_def split: option.splits)
          then show ?thesis
            using bridged[of p st2 t st3 b0 st4 st5 b1 st6] gate build Inr bal True tr4 bridge rbT
            by simp
        qed
      qed
    qed
  qed
qed

section \<open>Estimation, signing and sending\<close>

lemma split_at_unique:
  assumes "pre @ x # post = A @ y # B" and "P x" and "\<not> list_ex P A" and "\<not> list_ex P B"
  shows "pre = A \<and> x = y \<and> post = B"
  using assms
proof (induction A arbitrary: pre)
  case Nil
  then show ?case by (cases pre) (auto simp: list_ex_iff)
next
  case (Cons a A)
  then show ?case by (cases pre) (auto simp: list_ex_iff)
qed

lemma not_in_if_none: "\<not> list_ex P xs \<Longrightarrow> P x \<Longrightarrow> xs \<noteq> pre @ x # post"
  by (auto simp: list_ex_iff)

lemma failure_ends_run_quiet: "\<not> list_ex failed_estimate evs \<Longrightarrow> failure_ends_run a r evs"
  unfolding failure_ends_run_def
  by (auto simp: list_ex_iff failed_estimate_def)

lemma failure_ends_run_append:
  assumes "\<not> list_ex failed_estimate A" and "failure_ends_run a r B"
  shows "failure_ends_run a r (A @ B)"
  unfolding failure_ends_run_def
proof (intro allI impI)
  fix pre c t e post
  assume eq: "A @ B = pre @ EstimateGas c t (Inl e) # post"
  have nf: "EstimateGas c t (Inl e) \<notin> set A"
    using assms(1) by (auto simp: list_ex_iff failed_estimate_def)
  from eq obtain us where "(A = pre @ us \<and> us @ B = EstimateGas c t (Inl e) # post)
                         \<or> (A @ us = pre \<and> B = us @ EstimateGas c t (Inl e) # post)"
    by (auto simp: append_eq_append_conv2)
  then have "\<exists>us. B = us @ EstimateGas c t (Inl e) # post"
  proof
    assume h: "A = pre @ us \<and> us @ B = EstimateGas c t (Inl e) # post"
    show ?thesis
    proof (cases us)
      case Nil
      with h show ?thesis by auto
    next
      case (Cons u us')
      with h have "u = EstimateGas c t (Inl e)" by simp
      with h Cons nf show ?thesis by auto
    qed
  next
    assume "A @ us = pre \<and> B = us @ EstimateGas c t (Inl e) # post"
    then show ?thesis by blast
  qed
  then show "r = Inr False \<and>
        (\<exists>m. post = [Log ERROR m] \<and>
           (contains (str e) ''insufficient funds'' \<longrightarrow>
              m = (if is_deployment t then Insufficient_funds_to_deploy a
                   else Insufficient_funds_to_bridge a)))"
    using assms(2) unfolding failure_ends_run_def by blast
qed

lemma failure_ends_run_last:
  assumes "\<not> list_ex failed_estimate pre"
    and "contains (str e) ''insufficient funds'' \<longrightarrow>
           m = (if is_deployment t then Insufficient_funds_to_deploy a else Insufficient_funds_to_bridge a)"
  shows "failure_ends_run a (Inr False) (pre @ [EstimateGas c t (Inl e), Log ERROR m])"
  unfolding failure_ends_run_def
proof (intro allI impI)
  fix pre' c' t' e' post
  assume eq: "pre @ [EstimateGas c t (Inl e), Log ERROR m] = pre' @ EstimateGas c' t' (Inl e') # post"
  have "pre' = pre \<and> EstimateGas c' t' (Inl e') = EstimateGas c t (Inl e) \<and> post = [Log ERROR m]"
    using split_at_unique[of pre' "EstimateGas c' t' (Inl e')" post pre "EstimateGas c t (Inl e)"
                            "[Log ERROR m]" failed_estimate] eq assms(1)
    by (simp add: failed_estimate_def)
  then show "Inr False = Inr False \<and>
        (\<exists>m. post = [Log ERROR m] \<and>
           (contains (str e') ''insufficient funds'' \<longrightarrow>
              m = (if is_deployment t' then Insufficient_funds_to_deploy a
                   else Insufficient_funds_to_bridge a)))"
    using assms(2) by simp
qed

lemma sends_estimated_quiet: "\<not> list_ex sends evs \<Longrightarrow> sends_estimated evs"
  unfolding sends_estimated_def by (auto simp: list_ex_iff sends_def)

lemma sends_estimated_append:
  assumes "sends_estimated A" and "sends_estimated B"
  shows "sends_estimated (A @ B)"
  unfolding sends_estimated_def
proof (intro allI impI)
  fix pre c s h post
  assume eq: "A @ B = pre @ SendRawTransaction c s h # post"
  from eq obtain us where "(A = pre @ us \<and> us @ B = SendRawTransaction c s h # post)
                         \<or> (A @ us = pre \<and> B = us @ SendRawTransaction c s h # post)"
    by (auto simp: append_eq_append_conv2)
  then show "\<exists>pre' t g k. pre = pre' @ [EstimateGas c t (Inr g), SignTransaction k (t\<lparr>tx_gas := g\<rparr>)]
                     \<and> s = Signed k (t\<lparr>tx_gas := g\<rparr>)"
  proof
    assume h: "A = pre @ us \<and> us @ B = SendRawTransaction c s h # post"
    show ?thesis
    proof (cases us)
      case Nil
      with h have "B = [] @ SendRawTransaction c s h # post" by simp
      then show ?thesis using assms(2) unfolding sends_estimated_def by blast
    next
      case (Cons u us')
      with h have "A = pre @ SendRawTransaction c s h # us'" by simp
      then show ?thesis using assms(1) unfolding sends_estimated_def by blast
    qed
  next
    assume h: "A @ us = pre \<and> B = us @ SendRawTransaction c s h # post"
    then obtain pre' t g k where
      "us = pre' @ [EstimateGas c t (Inr g), SignTransaction k (t\<lparr>tx_gas := g\<rparr>)]"
      "s = Signed k (t\<lparr>tx_gas := g\<rparr>)"
      using assms(2) unfolding sends_estimated_def by blast
    with h have "pre = (A @ pre') @ [EstimateGas c t (Inr g), SignTransaction k (t\<lparr>tx_gas := g\<rparr>)]"
      by auto
    with \<open>s = Signed k (t\<lparr>tx_gas := g\<rparr>)\<close> show ?thesis by blast
  qed
qed

lemma sends_estimated_sent:
  assumes "\<not> list_ex sends rest"
  shows "sends_estimated ([EstimateGas c t (Inr g), SignTransaction k (t\<lparr>tx_gas := g\<rparr>),
                            SendRawTransaction c (Signed k (t\<lparr>tx_gas := g\<rparr>)) h] @ rest)"
  unfolding sends_estimated_def
proof (intro allI impI)
  fix pre c' s h' post
  let ?E = "EstimateGas c t (Inr g)" and ?S = "SignTransaction k (t\<lparr>tx_gas := g\<rparr>)"
  assume eq: "[?E, ?S, SendRawTransaction c (Signed k (t\<lparr>tx_gas := g\<rparr>)) h] @ rest
                = pre @ SendRawTransaction c' s h' # post"
  have "pre = [?E, ?S] \<and> SendRawTransaction c' s h' = SendRawTransaction c (Signed k (t\<lparr>tx_gas := g\<rparr>)) h
          \<and> post = rest"
    using split_at_unique[of pre "SendRawTransaction c' s h'" post "[?E, ?S]"
            "SendRawTransaction c (Signed k (t\<lparr>tx_gas := g\<rparr>)) h" rest sends] eq assms
    by (simp add: sends_def)
  then show "\<exists>pre' t g k. pre = pre' @ [EstimateGas c' t (Inr g), SignTransaction k (t\<lparr>tx_gas := g\<rparr>)]
                     \<and> s = Signed k (t\<lparr>tx_gas := g\<rparr>)"
    by auto
qed

lemma no_submits_no_sends: "\<not> list_ex submits evs \<Longrightarrow> \<not> list_ex sends evs"
  by (auto simp: list_ex_iff submits_def sends_def split: event.splits)

lemma no_txns_no_failed: "\<forall>e\<in>set evs. event_txns e = [] \<Longrightarrow> \<not> list_ex failed_estimate evs"
  by (auto simp: list_ex_iff failed_estimate_def split: event.splits)


lemma gate_event_plain:
  "gate_event e \<Longrightarrow> \<not> submits e \<and> \<not> failed_estimate e \<and> event_txns e = []"
  by (cases e) (auto simp: gate_event_def submits_def failed_estimate_def)

lemma wait_event_plain:
  "wait_event e \<Longrightarrow> \<not> submits e \<and> \<not> failed_estimate e \<and> event_txns e = []"
  by (cases e) (auto simp: wait_event_def submits_def failed_estimate_def)

lemma build_event_plain:
  "build_event e \<Longrightarrow> \<not> submits e \<and> \<not> failed_estimate e \<and> (\<forall>t\<in>set (event_txns e). is_deployment t)"
  by (cases e) (auto simp: build_event_def submits_def failed_estimate_def)

lemma bridge_event_txns: "bridge_event e \<Longrightarrow> \<forall>t\<in>set (event_txns e). \<not> is_deployment t"
  by (cases e) (auto simp: bridge_event_def split: signed.splits)

lemma send_event_txns: "send_event e \<Longrightarrow> \<forall>t\<in>set (event_txns e). is_deployment t"
  by (cases e) (auto simp: send_event_def split: signed.splits)

lemma plain_list:
  assumes "list_all P evs" and "\<And>e. P e \<Longrightarrow> \<not> submits e \<and> \<not> failed_estimate e \<and> Q e"
  shows "\<not> list_ex submits evs \<and> \<not> list_ex failed_estimate evs"
  using assms by (auto simp: list_all_iff list_ex_iff)

lemma never_submitted_no_failure: "\<not> list_ex failed_estimate evs \<Longrightarrow> never_submitted evs"
  unfolding never_submitted_def by (auto simp: list_ex_iff failed_estimate_def)

lemma never_submitted_no_submits: "\<not> list_ex submits evs \<Longrightarrow> never_submitted evs"
  unfolding never_submitted_def by (auto simp: list_ex_iff)

lemma never_submitted_kinds:
  assumes "\<forall>x\<in>set evs. failed_estimate x \<longrightarrow> (\<forall>t\<in>set (event_txns x). is_deployment t)"
    and "\<forall>x\<in>set evs. submits x \<longrightarrow> (\<forall>t\<in>set (event_txns x). \<not> is_deployment t)"
  shows "never_submitted evs"
  unfolding never_submitted_def
proof (intro allI impI ballI)
  fix c t e x g
  assume f: "EstimateGas c t (Inl e) \<in> set evs" and x: "x \<in> set evs" "submits x"
  have "is_deployment t" using assms(1) f by (force simp: failed_estimate_def)
  then have "is_deployment (t\<lparr>tx_gas := g\<rparr>)" by (simp add: is_deployment_def)
  then show "t\<lparr>tx_gas := g\<rparr> \<notin> set (event_txns x)" using assms(2) x by blast
qed

lemma bridge_summary:
  assumes "bridge_to_scroll w rpc ex key amt st = (r, st')"
  shows "\<exists>evs. trace st' = trace st @ evs \<and> list_all bridge_event evs
           \<and> failure_ends_run (address_of w key) r evs \<and> sends_estimated evs
           \<and> (list_ex failed_estimate evs \<longrightarrow> \<not> list_ex submits evs \<and> r = Inr False)"
  using assms
proof (cases rule: bridge_to_scroll_cases)
  case (early x evs)
  then show ?thesis
    using failure_ends_run_quiet sends_estimated_quiet no_submits_no_sends by blast
next
  case (estimation_failed pre t e m)
  let ?evs = "pre @ [EstimateGas rpc t (Inl e), Log ERROR m]"
  have 1: "trace st' = trace st @ ?evs" using estimation_failed by simp
  have 2: "list_all bridge_event ?evs"
    using estimation_failed by (simp add: bridge_event_def)
  have 3: "failure_ends_run (address_of w key) r ?evs"
    using failure_ends_run_last[OF estimation_failed(6), of e m t "address_of w key" rpc]
      estimation_failed by simp
  have ns: "\<not> list_ex submits ?evs" using estimation_failed by (simp add: submits_def)
  then have 4: "sends_estimated ?evs" using sends_estimated_quiet no_submits_no_sends by blast
  show ?thesis using 1 2 3 4 ns estimation_failed(1) by blast
next
  case (sent pre t g h rest)
  let ?mid = "[EstimateGas rpc t (Inr g), SignTransaction key (t\<lparr>tx_gas := g\<rparr>),
               SendRawTransaction rpc (Signed key (t\<lparr>tx_gas := g\<rparr>)) h]"
  let ?evs = "pre @ ?mid @ rest"
  have 1: "trace st' = trace st @ ?evs" using sent by simp
  have 2: "list_all bridge_event ?evs" using sent by (simp add: bridge_event_def is_deployment_def)
  have nf: "\<not> list_ex failed_estimate ?evs"
    using sent no_txns_no_failed[OF sent(6)] by (simp add: failed_estimate_def)
  have 3: "failure_ends_run (address_of w key) r ?evs" using nf by (rule failure_ends_run_quiet)
  have "sends_estimated pre" using sent sends_estimated_quiet no_submits_no_sends by blast
  moreover have "sends_estimated (?mid @ rest)"
    using sends_estimated_sent sent no_submits_no_sends by blast
  ultimately have 4: "sends_estimated ?evs" by (rule sends_estimated_append)
  show ?thesis using 1 2 3 4 nf by blast
qed

lemma deploy_send_summary:
  assumes "deploy_send w cfg key a t st = (r, st')" and "is_deployment t"
  shows "\<exists>evs. trace st' = trace st @ evs \<and> list_all send_event evs
           \<and> failure_ends_run a r evs \<and> sends_estimated evs
           \<and> (list_ex failed_estimate evs \<longrightarrow> \<not> list_ex submits evs \<and> r = Inr False)"
  using assms(1)
proof (cases rule: deploy_send_cases)
  case (estimation_failed e m)
  let ?evs = "[EstimateGas (scroll_rpc_url cfg) t (Inl e), Log ERROR m]"
  have 1: "trace st' = trace st @ ?evs" using estimation_failed by simp
  have 2: "list_all send_event ?evs"
    using estimation_failed assms(2) by (simp add: send_event_def)
  have 3: "failure_ends_run a r ?evs"
    using failure_ends_run_last[of "[]" e m t a "scroll_rpc_url cfg"] estimation_failed assms(2)
    by simp
  have ns: "\<not> list_ex submits ?evs" by (simp add: submits_def)
  then have 4: "sends_estimated ?evs" using sends_estimated_quiet no_submits_no_sends by blast
  show ?thesis using 1 2 3 4 ns estimation_failed(1) by blast
next
  case (sent g h rest)
  let ?evs = "[EstimateGas (scroll_rpc_url cfg) t (Inr g), SignTransaction key (t\<lparr>tx_gas := g\<rparr>),
               SendRawTransaction (scroll_rpc_url cfg) (Signed key (t\<lparr>tx_gas := g\<rparr>)) h] @ rest"
  have 1: "trace st' = trace st @ ?evs" using sent by simp
  have 2: "list_all send_event ?evs"
    using sent assms(2) by (simp add: send_event_def is_deployment_def)
  have nf: "\<not> list_ex failed_estimate ?evs"
    using no_txns_no_failed[OF sent(3)] by (simp add: failed_estimate_def)
  have 3: "failure_ends_run a r ?evs" using nf by (rule failure_ends_run_quiet)
  have 4: "sends_estimated ?evs" using sends_estimated_sent sent no_submits_no_sends by blast
  show ?thesis using 1 2 3 4 nf by blast
qed

lemma deploy_shapes:
  assumes "deploy_random_contract w cfg key st = Some (r, st')"
  obtains
    (build_raised) k p x bev where
      "eth_gas_price w (eth_rpc_url cfg) (clock st + k) = Inr p"
      "from_wei_gwei w p \<le> max_gwei cfg"
      "\<forall>i<k. \<not> acceptable w (max_gwei cfg) (eth_gas_price w (eth_rpc_url cfg) (clock st + i))"
      "r = Inl x"
      "trace st' = trace st @ gate_part w cfg (address_of w key) (clock st) k p @ bev"
      "list_all build_event bev" "\<forall>e\<in>set bev. event_txns e = []"
  | (balance_raised) k p code cid n x where
      "eth_gas_price w (eth_rpc_url cfg) (clock st + k) = Inr p"
      "from_wei_gwei w p \<le> max_gwei cfg"
      "\<forall>i<k. \<not> acceptable w (max_gwei cfg) (eth_gas_price w (eth_rpc_url cfg) (clock st + i))"
      "r = Inl x"
      "trace st' = trace st @ gate_part w cfg (address_of w key) (clock st) k p
                    @ build_part cfg (address_of w key) p code cid n
                    @ [GetBalance (scroll_rpc_url cfg) (address_of w key) (Inl x)]"
  | (funded) k p code cid n b0 st4 where
      "eth_gas_price w (eth_rpc_url cfg) (clock st + k) = Inr p"
      "from_wei_gwei w p \<le> max_gwei cfg"
      "\<forall>i<k. \<not> acceptable w (max_gwei cfg) (eth_gas_price w (eth_rpc_url cfg) (clock st + i))"
      "\<not> b0 < int (to_wei_ether w (bridge_amount cfg))"
      "trace st4 = trace st @ gate_part w cfg (address_of w key) (clock st) k p
                    @ build_part cfg (address_of w key) p code cid n
                    @ [GetBalance (scroll_rpc_url cfg) (address_of w key) (Inr b0)]"
      "deploy_send w cfg key (address_of w key) (deployment_txn (address_of w key) p code cid n) st4
         = (r, st')"
  | (bridge_failed) k p code cid n b0 st4 where
      "eth_gas_price w (eth_rpc_url cfg) (clock st + k) = Inr p"
      "from_wei_gwei w p \<le> max_gwei cfg"
      "\<forall>i<k. \<not> acceptable w (max_gwei cfg) (eth_gas_price w (eth_rpc_url cfg) (clock st + i))"
      "b0 < int (to_wei_ether w (bridge_amount cfg))"
      "trace st4 = trace st @ gate_part w cfg (address_of w key) (clock st) k p
                    @ build_part cfg (address_of w key) p code cid n
                    @ [GetBalance (scroll_rpc_url cfg) (address_of w key) (Inr b0)]"
      "bridge_to_scroll w (arbitrum_rpc_url cfg) (arbitrum_explorer_url cfg) key (bridge_amount cfg) st4
         = (r, st')"
      "r \<noteq> Inr True"
  | (bridged) k p code cid n b0 st4 st5 j b1 st6 where
      "eth_gas_price w (eth_rpc_url cfg) (clock st + k) = Inr p"
      "from_wei_gwei w p \<le> max_gwei cfg"
      "\<forall>i<k. \<not> acceptable w (max_gwei cfg) (eth_gas_price w (eth_rpc_url cfg) (clock st + i))"
      "b0 < int (to_wei_ether w (bridge_amount cfg))"
      "trace st4 = trace st @ gate_part w cfg (address_of w key) (clock st) k p
                    @ build_part cfg (address_of w key) p code cid n
                    @ [GetBalance (scroll_rpc_url cfg) (address_of w key) (Inr b0)]"
      "bridge_to_scroll w (arbitrum_rpc_url cfg) (arbitrum_explorer_url cfg) key (bridge_amount cfg) st4
         = (Inr True, st5)"
      "eth_get_balance w (scroll_rpc_url cfg) (address_of w key) (clock st5 + j) = Inr b1"
      "b0 < b1"
      "\<forall>i<j. \<not> increased b0 (eth_get_balance w (scroll_rpc_url cfg) (address_of w key) (clock st5 + i))"
      "trace st6 = trace st5 @ Log INFO Waiting_for_bridge #
                     wait_retries w (scroll_rpc_url cfg) (address_of w key) (clock st5) j
                     @ [GetBalance (scroll_rpc_url cfg) (address_of w key) (Inr b1)]"
      "deploy_send w cfg key (address_of w key) (deployment_txn (address_of w key) p code cid n) st6
         = (r, st')"
proof -
  let ?a = "address_of w key"
  let ?st1 = "emit (Log INFO (Deploying_contract ?a)) st"
  have c1: "clock ?st1 = clock st" and t1: "trace ?st1 = trace st @ [Log INFO (Deploying_contract ?a)]"
    by (simp_all add: emit_def)
  have head: "trace st2 = trace st @ gate_part w cfg ?a (clock st) k p"
    if "st2 = ?st1\<lparr>clock := clock ?st1 + Suc k,
                trace := trace ?st1 @ gate_retries w (eth_rpc_url cfg) (clock ?st1) k
                           @ [GasPrice (eth_rpc_url cfg) (Inr p)]\<rparr>" for st2 k p
    using that c1 t1 by (simp add: gate_part_def)
  from assms show ?thesis
  proof (cases rule: deploy_random_contract_cases)
    case (build_raised p st2 x)
    from build_raised(1) obtain k where k:
      "eth_gas_price w (eth_rpc_url cfg) (clock ?st1 + k) = Inr p" "from_wei_gwei w p \<le> max_gwei cfg"
      "\<forall>i<k. \<not> acceptable w (max_gwei cfg) (eth_gas_price w (eth_rpc_url cfg) (clock ?st1 + i))"
      "st2 = ?st1\<lparr>clock := clock ?st1 + Suc k,
                trace := trace ?st1 @ gate_retries w (eth_rpc_url cfg) (clock ?st1) k
                           @ [GasPrice (eth_rpc_url cfg) (Inr p)]\<rparr>"
      by (rule gate_result)
    from build_raised(2) obtain bev where "trace st' = trace st2 @ bev" "list_all build_event bev"
      "\<forall>e\<in>set bev. event_txns e = []"
      by (cases rule: deploy_transaction_cases) auto
    then show ?thesis
      using that(1)[of k p x bev] k head[OF k(4)] build_raised(3) c1 by simp
  next
    case (balance_raised p st2 t st3 x)
    from balance_raised(1) obtain k where k:
      "eth_gas_price w (eth_rpc_url cfg) (clock ?st1 + k) = Inr p" "from_wei_gwei w p \<le> max_gwei cfg"
      "\<forall>i<k. \<not> acceptable w (max_gwei cfg) (eth_gas_price w (eth_rpc_url cfg) (clock ?st1 + i))"
      "st2 = ?st1\<lparr>clock := clock ?st1 + Suc k,
                trace := trace ?st1 @ gate_retries w (eth_rpc_url cfg) (clock ?st1) k
                           @ [GasPrice (eth_rpc_url cfg) (Inr p)]\<rparr>"
      by (rule gate_result)
    from balance_raised(2) obtain code cid n where
      "t = deployment_txn ?a p code cid n" "trace st3 = trace st2 @ build_part cfg ?a p code cid n"
      by (cases rule: deploy_transaction_cases) (auto simp: deployment_txn_def build_part_def)
    then show ?thesis
      using that(2)[of k p x code cid n] k head[OF k(4)] balance_raised c1 by simp
  next
    case (funded p st2 t st3 b0 st4)
    from funded(1) obtain k where k:
      "eth_gas_price w (eth_rpc_url cfg) (clock ?st1 + k) = Inr p" "from_wei_gwei w p \<le> max_gwei cfg"
      "\<forall>i<k. \<not> acceptable w (max_gwei cfg) (eth_gas_price w (eth_rpc_url cfg) (clock ?st1 + i))"
      "st2 = ?st1\<lparr>clock := clock ?st1 + Suc k,
                trace := trace ?st1 @ gate_retries w (eth_rpc_url cfg) (clock ?st1) k
                           @ [GasPrice (eth_rpc_url cfg) (Inr p)]\<rparr>"
      by (rule gate_result)
    from funded(2) obtain code cid n where
      "t = deployment_txn ?a p code cid n" "trace st3 = trace st2 @ build_part cfg ?a p code cid n"
      by (cases rule: deploy_transaction_cases) (auto simp: deployment_txn_def build_part_def)
    then show ?thesis
      using that(3)[of k p b0 st4 code cid n] k head[OF k(4)] funded c1 by simp
  next
    case (bridge_failed p st2 t st3 b0 st4)
    from bridge_failed(1) obtain k where k:
      "eth_gas_price w (eth_rpc_url cfg) (clock ?st1 + k) = Inr p" "from_wei_gwei w p \<le> max_gwei cfg"
      "\<forall>i<k. \<not> acceptable w (max_gwei cfg) (eth_gas_price w (eth_rpc_url cfg) (clock ?st1 + i))"
      "st2 = ?st1\<lparr>clock := clock ?st1 + Suc k,
                trace := trace ?st1 @ gate_retries w (eth_rpc_url cfg) (clock ?st1) k
                           @ [GasPrice (eth_rpc_url cfg) (Inr p)]\<rparr>"
      by (rule gate_result)
    from bridge_failed(2) obtain code cid n where
      "t = deployment_txn ?a p code cid n" "trace st3 = trace st2 @ build_part cfg ?a p code cid n"
      by (cases rule: deploy_transaction_cases) (auto simp: deployment_txn_def build_part_def)
    then show ?thesis
      using that(4)[of k p b0 st4 code cid n] k head[OF k(4)] bridge_failed c1 by simp
  next
    case (bridged p st2 t st3 b0 st4 st5 b1 st6)
    from bridged(1) obtain k where k:
      "eth_gas_price w (eth_rpc_url cfg) (clock ?st1 + k) = Inr p" "from_wei_gwei w p \<le> max_gwei cfg"
      "\<forall>i<k. \<not> acceptable w (max_gwei cfg) (eth_gas_price w (eth_rpc_url cfg) (clock ?st1 + i))"
      "st2 = ?st1\<lparr>clock := clock ?st1 + Suc k,
                trace := trace ?st1 @ gate_retries w (eth_rpc_url cfg) (clock ?st1) k
                           @ [GasPrice (eth_rpc_url cfg) (Inr p)]\<rparr>"
      by (rule gate_result)
    from bridged(2) obtain code cid n where b:
      "t = deployment_txn ?a p code cid n" "trace st3 = trace st2 @ build_part cfg ?a p code cid n"
      by (cases rule: deploy_transaction_cases) (auto simp: deployment_txn_def build_part_def)
    let ?st5 = "emit (Log INFO Waiting_for_bridge) st5"
    from bridged(7) obtain j where j:
      "eth_get_balance w (scroll_rpc_url cfg) ?a (clock ?st5 + j) = Inr b1" "b0 < b1"
      "\<forall>i<j. \<not> increased b0 (eth_get_balance w (scroll_rpc_url cfg) ?a (clock ?st5 + i))"
      "st6 = ?st5\<lparr>clock := clock ?st5 + Suc j,
                trace := trace ?st5 @ wait_retries w (scroll_rpc_url cfg) ?a (clock ?st5) j
                           @ [GetBalance (scroll_rpc_url cfg) ?a (Inr b1)]\<rparr>"
      by (rule wait_result)
    have c5: "clock ?st5 = clock st5" "trace ?st5 = trace st5 @ [Log INFO Waiting_for_bridge]"
      by (simp_all add: emit_def)
    have t6: "trace st6 = trace st5 @ Log INFO Waiting_for_bridge #
                     wait_retries w (scroll_rpc_url cfg) ?a (clock st5) j
                     @ [GetBalance (scroll_rpc_url cfg) ?a (Inr b1)]"
      using j(4) c5 by simp
    show ?thesis
      using that(5)[of k p b0 st4 code cid n st5 j b1 st6] k head[OF k(4)] bridged b j c5 t6 c1
      by simp
  qed
qed

lemma gate_part_plain:
  "\<not> list_ex submits (gate_part w cfg a t k p)" "\<not> list_ex failed_estimate (gate_part w cfg a t k p)"
  "\<forall>e\<in>set (gate_part w cfg a t k p). event_txns e = []"
  using gate_retries_events[of w "eth_rpc_url cfg" t k] gate_event_plain
  by (auto simp: gate_part_def list_all_iff list_ex_iff submits_def failed_estimate_def)

lemma build_part_plain:
  "\<not> list_ex submits (build_part cfg a p code cid n)"
  "\<not> list_ex failed_estimate (build_part cfg a p code cid n)"
  by (simp_all add: build_part_def submits_def failed_estimate_def)

lemma wait_part_plain:
  "\<not> list_ex submits (Log INFO Waiting_for_bridge # wait_retries w rpc a t j @ [GetBalance rpc a r])"
  "\<not> list_ex failed_estimate (Log INFO Waiting_for_bridge # wait_retries w rpc a t j @ [GetBalance rpc a r])"
  "\<forall>e\<in>set (Log INFO Waiting_for_bridge # wait_retries w rpc a t j @ [GetBalance rpc a r]). event_txns e = []"
  using wait_retries_events[of w rpc a t j] wait_event_plain
  by (auto simp: list_all_iff list_ex_iff submits_def failed_estimate_def)

lemma build_events_plain:
  "list_all build_event bev \<Longrightarrow> \<not> list_ex submits bev \<and> \<not> list_ex failed_estimate bev"
  using build_event_plain by (auto simp: list_all_iff list_ex_iff)

lemma list_ex_append_not: "\<not> list_ex P xs \<Longrightarrow> \<not> list_ex P ys \<Longrightarrow> \<not> list_ex P (xs @ ys)"
  by simp

lemma tail_summary:
  assumes A: "\<not> list_ex submits A" "\<not> list_ex failed_estimate A"
    and B: "failure_ends_run a r B" "sends_estimated B"
           "list_ex failed_estimate B \<longrightarrow> \<not> list_ex submits B \<and> r = Inr False"
  shows "failure_ends_run a r (A @ B) \<and> sends_estimated (A @ B) \<and> never_submitted (A @ B)"
proof -
  have 1: "failure_ends_run a r (A @ B)" using A(2) B(1) by (rule failure_ends_run_append)
  have 2: "sends_estimated (A @ B)"
    using sends_estimated_append[OF sends_estimated_quiet[OF no_submits_no_sends[OF A(1)]] B(2)] .
  have 3: "never_submitted (A @ B)"
  proof (cases "list_ex failed_estimate B")
    case True
    then have "\<not> list_ex submits (A @ B)" using A(1) B(3) by simp
    then show ?thesis by (rule never_submitted_no_submits)
  next
    case False
    then have "\<not> list_ex failed_estimate (A @ B)" using A(2) by simp
    then show ?thesis by (rule never_submitted_no_failure)
  qed
  show ?thesis using 1 2 3 by blast
qed

lemma deployment_txn_is_deployment: "is_deployment (deployment_txn a p code cid n)"
  by (simp add: deployment_txn_def is_deployment_def)

lemma deploy_summary:
  assumes "deploy_random_contract w cfg key st = Some (r, st')"
  shows "\<exists>evs. trace st' = trace st @ evs \<and> failure_ends_run (address_of w key) r evs
           \<and> sends_estimated evs \<and> never_submitted evs"
  using assms
proof (cases rule: deploy_shapes)
  case (build_raised k p x bev)
  let ?evs = "gate_part w cfg (address_of w key) (clock st) k p @ bev"
  have "\<not> list_ex submits ?evs" "\<not> list_ex failed_estimate ?evs"
    using gate_part_plain(1,2)[of w cfg "address_of w key" "clock st" k p]
      build_events_plain[OF build_raised(6)] by simp_all
  then have "failure_ends_run (address_of w key) r ?evs \<and> sends_estimated ?evs \<and> never_submitted ?evs"
    using failure_ends_run_quiet sends_estimated_quiet no_submits_no_sends never_submitted_no_submits
    by blast
  then show ?thesis using build_raised(5) by blast
next
  case (balance_raised k p code cid n x)
  let ?evs = "gate_part w cfg (address_of w key) (clock st) k p
                    @ build_part cfg (address_of w key) p code cid n
                    @ [GetBalance (scroll_rpc_url cfg) (address_of w key) (Inl x)]"
  have "\<not> list_ex submits ?evs" "\<not> list_ex failed_estimate ?evs"
    using gate_part_plain(1,2)[of w cfg "address_of w key" "clock st" k p]
      build_part_plain[of cfg "address_of w key" p code cid n]
    by (simp_all add: submits_def failed_estimate_def)
  then have "failure_ends_run (address_of w key) r ?evs \<and> sends_estimated ?evs \<and> never_submitted ?evs"
    using failure_ends_run_quiet sends_estimated_quiet no_submits_no_sends never_submitted_no_submits
    by blast
  then show ?thesis using balance_raised(5) by blast
next
  case (funded k p code cid n b0 st4)
  let ?A = "gate_part w cfg (address_of w key) (clock st) k p
                    @ build_part cfg (address_of w key) p code cid n
                    @ [GetBalance (scroll_rpc_url cfg) (address_of w key) (Inr b0)]"
  have A: "\<not> list_ex submits ?A" "\<not> list_ex failed_estimate ?A"
    using gate_part_plain(1,2)[of w cfg "address_of w key" "clock st" k p]
      build_part_plain[of cfg "address_of w key" p code cid n]
    by (simp_all add: submits_def failed_estimate_def)
  from deploy_send_summary[OF funded(6) deployment_txn_is_deployment]
  obtain sev where sev: "trace st' = trace st4 @ sev"
    "failure_ends_run (address_of w key) r sev" "sends_estimated sev"
    "list_ex failed_estimate sev \<longrightarrow> \<not> list_ex submits sev \<and> r = Inr False" by blast
  have "trace st' = trace st @ ?A @ sev" using sev(1) funded(5) by simp
  then show ?thesis using tail_summary[OF A sev(2,3,4)] by blast
next
  case (bridge_failed k p code cid n b0 st4)
  let ?A = "gate_part w cfg (address_of w key) (clock st) k p
                    @ build_part cfg (address_of w key) p code cid n
                    @ [GetBalance (scroll_rpc_url cfg) (address_of w key) (Inr b0)]"
  have A: "\<not> list_ex submits ?A" "\<not> list_ex failed_estimate ?A"
    using gate_part_plain(1,2)[of w cfg "address_of w key" "clock st" k p]
      build_part_plain[of cfg "address_of w key" p code cid n]
    by (simp_all add: submits_def failed_estimate_def)
  from bridge_summary[OF bridge_failed(6)]
  obtain bev where bev: "trace st' = trace st4 @ bev"
    "failure_ends_run (address_of w key) r bev" "sends_estimated bev"
    "list_ex failed_estimate bev \<longrightarrow> \<not> list_ex submits bev \<and> r = Inr False" by blast
  have "trace st' = trace st @ ?A @ bev" using bev(1) bridge_failed(5) by simp
  then show ?thesis using tail_summary[OF A bev(2,3,4)] by blast
next
  case (bridged k p code cid n b0 st4 st5 j b1 st6)
  let ?a = "address_of w key"
  let ?A = "gate_part w cfg ?a (clock st) k p @ build_part cfg ?a p code cid n
              @ [GetBalance (scroll_rpc_url cfg) ?a (Inr b0)]"
  let ?W = "Log INFO Waiting_for_bridge # wait_retries w (scroll_rpc_url cfg) ?a (clock st5) j
              @ [GetBalance (scroll_rpc_url cfg) ?a (Inr b1)]"
  have A: "\<not> list_ex submits ?A" "\<not> list_ex failed_estimate ?A"
    using gate_part_plain(1,2)[of w cfg ?a "clock st" k p] build_part_plain[of cfg ?a p code cid n]
    by (simp_all add: submits_def failed_estimate_def)
  have W: "\<not> list_ex submits ?W" "\<not> list_ex failed_estimate ?W"
    using wait_part_plain(1,2)[of w "scroll_rpc_url cfg" ?a "clock st5" j "Inr b1"] by simp_all
  from bridge_summary[OF bridged(6)]
  obtain bev where bev: "trace st5 = trace st4 @ bev" "list_all bridge_event bev"
    "sends_estimated bev" "\<not> list_ex failed_estimate bev" by auto
  from deploy_send_summary[OF bridged(11) deployment_txn_is_deployment]
  obtain sev where sev: "trace st' = trace st6 @ sev" "list_all send_event sev"
    "failure_ends_run ?a r sev" "sends_estimated sev"
    "list_ex failed_estimate sev \<longrightarrow> \<not> list_ex submits sev \<and> r = Inr False" by blast
  let ?evs = "(?A @ bev @ ?W) @ sev"
  have tr: "trace st' = trace st @ ?evs" using sev(1) bridged(10) bev(1) bridged(5) by simp
  have nfP: "\<not> list_ex failed_estimate (?A @ bev @ ?W)" using A(2) bev(4) W(2) by simp
  have 1: "failure_ends_run ?a r ?evs" using nfP sev(3) by (rule failure_ends_run_append)
  have "sends_estimated (?A @ bev @ ?W)"
    using sends_estimated_append[OF sends_estimated_quiet[OF no_submits_no_sends[OF A(1)]]
            sends_estimated_append[OF bev(3) sends_estimated_quiet[OF no_submits_no_sends[OF W(1)]]]] .
  then have 2: "sends_estimated ?evs" using sev(4) by (rule sends_estimated_append)
  have 3: "never_submitted ?evs"
  proof (cases "list_ex failed_estimate sev")
    case False
    then have "\<not> list_ex failed_estimate ?evs" using nfP by simp
    then show ?thesis by (rule never_submitted_no_failure)
  next
    case True
    then have ns: "\<not> list_ex submits sev" using sev(5) by blast
    have a: "\<forall>x\<in>set ?evs. failed_estimate x \<longrightarrow> (\<forall>t\<in>set (event_txns x). is_deployment t)"
    proof (intro ballI impI)
      fix x t assume x: "x \<in> set ?evs" "failed_estimate x" "t \<in> set (event_txns x)"
      then have "x \<in> set sev" using nfP by (auto simp: list_ex_iff)
      then show "is_deployment t"
        using sev(2) send_event_txns x(3) by (auto simp: list_all_iff)
    qed
    have b: "\<forall>x\<in>set ?evs. submits x \<longrightarrow> (\<forall>t\<in>set (event_txns x). \<not> is_deployment t)"
    proof (intro ballI impI)
      fix x t assume x: "x \<in> set ?evs" "submits x" "t \<in> set (event_txns x)"
      then have "x \<in> set bev" using A(1) W(1) ns by (auto simp: list_ex_iff)
      then show "\<not> is_deployment t"
        using bev(2) bridge_event_txns x(3) by (auto simp: list_all_iff)
    qed
    show ?thesis using a b by (rule never_submitted_kinds)
  qed
  show ?thesis using tr 1 2 3 by blast
qed

text \<open>
  Claim C3. In every run of \<open>bridge_to_scroll\<close> and every completed run of
  \<open>deploy_random_contract\<close>: an estimation of gas that fails is followed by one error line
  only and the run returns \<open>False\<close>; the line is the insufficient-funds one of that
  transaction when the message of the error contains \<open>insufficient funds\<close>; the
  transaction whose estimation failed is in no signing and no sending of the run; and every
  sending of a transaction comes right after the successful estimation and the signing of
  that transaction, whose gas limit is the estimate.
\<close>

theorem estimation_failure_never_submits:
  assumes "bridge_to_scroll w rpc explorer private_key amount st = (r, st')
           \<or> deploy_random_contract w cfg private_key st = Some (r, st')"
  shows "(\<forall>pre c t e post. new_events st st' = pre @ EstimateGas c t (Inl e) # post \<longrightarrow>
            r = Inr False
          \<and> (\<exists>m. post = [Log ERROR m] \<and>
                 (contains (str e) ''insufficient funds'' \<longrightarrow>
                    m = (if is_deployment t
                         then Insufficient_funds_to_deploy (address_of w private_key)
                         else Insufficient_funds_to_bridge (address_of w private_key))))
          \<and> (\<forall>x\<in>set (new_events st st'). submits x \<longrightarrow>
                 (\<forall>g. t\<lparr>tx_gas := g\<rparr> \<notin> set (event_txns x))))
       \<and> (\<forall>pre c s h post. new_events st st' = pre @ SendRawTransaction c s h # post \<longrightarrow>
            (\<exists>pre' t g k. pre = pre' @ [EstimateGas c t (Inr g), SignTransaction k (t\<lparr>tx_gas := g\<rparr>)]
                         \<and> s = Signed k (t\<lparr>tx_gas := g\<rparr>)))"
proof -
  have "\<exists>evs. trace st' = trace st @ evs \<and> failure_ends_run (address_of w private_key) r evs
           \<and> sends_estimated evs \<and> never_submitted evs"
    using assms
  proof
    assume "bridge_to_scroll w rpc explorer private_key amount st = (r, st')"
    from bridge_summary[OF this] obtain evs where evs: "trace st' = trace st @ evs"
      "failure_ends_run (address_of w private_key) r evs" "sends_estimated evs"
      "list_ex failed_estimate evs \<longrightarrow> \<not> list_ex submits evs \<and> r = Inr False" by blast
    have "never_submitted evs"
      using evs(4) never_submitted_no_submits never_submitted_no_failure by blast
    then show ?thesis using evs by blast
  next
    assume "deploy_random_contract w cfg private_key st = Some (r, st')"
    then show ?thesis by (rule deploy_summary)
  qed
  then obtain evs where evs: "new_events st st' = evs"
    "failure_ends_run (address_of w private_key) r evs" "sends_estimated evs" "never_submitted evs"
    by (auto simp: new_events_def)
  have 1: "\<forall>pre c t e post. evs = pre @ EstimateGas c t (Inl e) # post \<longrightarrow>
            r = Inr False
          \<and> (\<exists>m. post = [Log ERROR m] \<and>
                 (contains (str e) ''insufficient funds'' \<longrightarrow>
                    m = (if is_deployment t
                         then Insufficient_funds_to_deploy (address_of w private_key)
                         else Insufficient_funds_to_bridge (address_of w private_key))))
          \<and> (\<forall>x\<in>set evs. submits x \<longrightarrow> (\<forall>g. t\<lparr>tx_gas := g\<rparr> \<notin> set (event_txns x)))"
  proof (intro allI impI)
    fix pre c t e post
    assume eq: "evs = pre @ EstimateGas c t (Inl e) # post"
    then have mem: "EstimateGas c t (Inl e) \<in> set evs" by simp
    have a: "r = Inr False \<and> (\<exists>m. post = [Log ERROR m] \<and>
                 (contains (str e) ''insufficient funds'' \<longrightarrow>
                    m = (if is_deployment t
                         then Insufficient_funds_to_deploy (address_of w private_key)
                         else Insufficient_funds_to_bridge (address_of w private_key))))"
      using evs(2) eq unfolding failure_ends_run_def by blast
    have b: "\<forall>x\<in>set evs. submits x \<longrightarrow> (\<forall>g. t\<lparr>tx_gas := g\<rparr> \<notin> set (event_txns x))"
      using evs(4) mem unfolding never_submitted_def by blast
    show "r = Inr False
          \<and> (\<exists>m. post = [Log ERROR m] \<and>
                 (contains (str e) ''insufficient funds'' \<longrightarrow>
                    m = (if is_deployment t
                         then Insufficient_funds_to_deploy (address_of w private_key)
                         else Insufficient_funds_to_bridge (address_of w private_key))))
          \<and> (\<forall>x\<in>set evs. submits x \<longrightarrow> (\<forall>g. t\<lparr>tx_gas := g\<rparr> \<notin> set (event_txns x)))"
      using a b by blast
  qed
  have 2: "\<forall>pre c s h post. evs = pre @ SendRawTransaction c s h # post \<longrightarrow>
            (\<exists>pre' t g k. pre = pre' @ [EstimateGas c t (Inr g), SignTransaction k (t\<lparr>tx_gas := g\<rparr>)]
                         \<and> s = Signed k (t\<lparr>tx_gas := g\<rparr>))"
    using evs(3) unfolding sends_estimated_def .
  show ?thesis unfolding evs(1) using 1 2 by (rule conjI)
qed

section \<open>Runs on the demonstration worlds\<close>

lemma quiet_fields:
  "eth_chain_id quiet_world rpc t = Inr 1"
  "eth_gas_price quiet_world rpc t = Inr 20000000000"
  "eth_get_transaction_count quiet_world rpc a t = Inr 7"
  "eth_get_balance quiet_world rpc a t = Inr 1000000000000000000"
  "eth_estimate_gas quiet_world rpc tr t = Inr 21000"
  "eth_send_raw_transaction quiet_world rpc s t = Inr ''0xabc''"
  "suggest_gas_fees quiet_world c t = Inr None"
  "wait_for_transaction_receipt quiet_world rpc h t = Inr (Some \<lparr>status = 1, contractAddress = ''0xC0DE''\<rparr>)"
  "estimateSendFee quiet_world rpc d payload ps t = Inr [100000000000000, 0]"
  "compile_random_contract quiet_world lo hi t = Inr ''6080''"
  "from_wei_gwei quiet_world p = of_int p / 10 ^ 9"
  "to_wei_ether quiet_world (1 / 100) = 10000000000000000"
  "address_of quiet_world demo_key = demo_address"
  by (simp_all add: quiet_world_def demo_key_def demo_address_def)

lemma demo_config_fields:
  "scroll_rpc_url demo_config = ''scroll''" "eth_rpc_url demo_config = ''eth''"
  "arbitrum_rpc_url demo_config = ''arbitrum''" "scroll_explorer_url demo_config = ''scrollscan/''"
  "arbitrum_explorer_url demo_config = ''arbiscan/''" "max_gwei demo_config = 30"
  "min_length demo_config = 5" "max_length demo_config = 10" "bridge_amount demo_config = 1 / 100"
  "min_sleep_time demo_config = 1" "max_sleep_time demo_config = 5"
  by (simp_all add: demo_config_def)

lemma demo_adapter_params: "adapter_params 10000000000000000 demo_address = Inr demo_params"
  by (simp add: adapter_params_def adapter_params_hex_def hex_def rjust_def hex_digits.simps
      hex_digit_def HexBytes_def hex_value_def demo_address_def demo_params_def)

lemma broke_run:
  "deploy_random_contract broke_world demo_config demo_key start = Some (Inr False, broke_end)"
  by (simp add: deploy_random_contract_def deploy_transaction_def deploy_send_def Let_def
     gas_price_gate.simps ask_def emit_def broke_world_def quiet_fields demo_config_fields start_def
     broke_end_def demo_deployment_def deployment_txn_def)

lemma bridge_run:
  "bridge_to_scroll quiet_world ''arbitrum'' ''arbiscan/'' demo_key (1 / 100) start
     = (Inr True, bridge_end)"
  by (simp add: bridge_to_scroll_def bridge_fee_def bridge_transaction_def bridge_send_def Let_def
     ask_def emit_def quiet_fields demo_adapter_params start_def bridge_end_def demo_bridge_txn_def)

theorem estimation_failure_never_submits_witness:
  "(bridge_to_scroll broke_world ''arbitrum'' ''arbiscan/'' demo_key (1 / 100) start = (Inr False, broke_end)
    \<or> deploy_random_contract broke_world demo_config demo_key start = Some (Inr False, broke_end))
   \<and> new_events start broke_end =
        take 7 (trace broke_end) @
        EstimateGas ''scroll'' demo_deployment
          (Inl (Exception ''insufficient funds for gas * price + value'')) #
        [Log ERROR (Insufficient_funds_to_deploy (address_of broke_world demo_key))]
   \<and> (\<forall>g. demo_deployment\<lparr>tx_gas := g\<rparr>
             \<notin> set (concat (map event_txns (filter submits (new_events start broke_end)))))"
proof -
  have h: "bridge_to_scroll broke_world ''arbitrum'' ''arbiscan/'' demo_key (1 / 100) start = (Inr False, broke_end)
    \<or> deploy_random_contract broke_world demo_config demo_key start = Some (Inr False, broke_end)"
    using broke_run by simp
  have e: "new_events start broke_end =
        take 7 (trace broke_end) @
        EstimateGas ''scroll'' demo_deployment
          (Inl (Exception ''insufficient funds for gas * price + value'')) #
        [Log ERROR (Insufficient_funds_to_deploy (address_of broke_world demo_key))]"
    by (simp add: new_events_def start_def broke_end_def broke_world_def quiet_fields)
  have "\<forall>x\<in>set (new_events start broke_end). submits x \<longrightarrow>
          (\<forall>g. demo_deployment\<lparr>tx_gas := g\<rparr> \<notin> set (event_txns x))"
    using e estimation_failure_never_submits [OF h] by blast
  then have "\<forall>g. demo_deployment\<lparr>tx_gas := g\<rparr>
             \<notin> set (concat (map event_txns (filter submits (new_events start broke_end))))"
    by auto
  then show ?thesis using h e by blast
qed

section \<open>The value of the bridge transaction\<close>

text \<open>
  Claim C7. In every run of \<open>bridge_to_scroll\<close>, each transaction that is built, estimated,
  signed or sent has as value the amount in wei plus the sum of the fees that the bridge
  contract quoted through \<open>estimateSendFee\<close>, asked with the encoded adapter params.
\<close>

theorem bridge_value_is_amount_plus_fee:
  assumes "bridge_to_scroll w rpc explorer private_key amount st = (r, st')"
    and "e \<in> set (new_events st st')" and "t \<in> set (event_txns e)"
  shows "\<exists>params send_fee.
           adapter_params (to_wei_ether w amount) (address_of w private_key) = Inr params
         \<and> EstimateSendFee rpc 214 ''0x0'' params (Inr send_fee) \<in> set (new_events st st')
         \<and> tx_value t = int (to_wei_ether w amount) + sum_list send_fee"
  using assms
  unfolding bridge_to_scroll_def bridge_fee_def bridge_transaction_def bridge_send_def
    new_events_def Let_def ask_def emit_def
  by (auto split: sum.splits option.splits prod.splits if_splits)

theorem bridge_value_is_amount_plus_fee_witness:
  "bridge_to_scroll quiet_world ''arbitrum'' ''arbiscan/'' demo_key (1 / 100) start = (Inr True, bridge_end)
   \<and> BuildTransaction ''arbitrum'' demo_bridge_txn \<in> set (new_events start bridge_end)
   \<and> demo_bridge_txn \<in> set (event_txns (BuildTransaction ''arbitrum'' demo_bridge_txn))
   \<and> (\<exists>params send_fee.
         adapter_params (to_wei_ether quiet_world (1 / 100)) (address_of quiet_world demo_key) = Inr params
       \<and> EstimateSendFee ''arbitrum'' 214 ''0x0'' params (Inr send_fee) \<in> set (new_events start bridge_end)
       \<and> tx_value demo_bridge_txn = int (to_wei_ether quiet_world (1 / 100)) + sum_list send_fee)"
proof -
  have a: "BuildTransaction ''arbitrum'' demo_bridge_txn \<in> set (new_events start bridge_end)"
    by (simp add: new_events_def start_def bridge_end_def)
  have b: "demo_bridge_txn \<in> set (event_txns (BuildTransaction ''arbitrum'' demo_bridge_txn))"
    by simp
  show ?thesis
    using bridge_run a b bridge_value_is_amount_plus_fee [OF bridge_run a b] by blast
qed

section \<open>Where the bridge and the deployment appear in a run\<close>

lemma poor_run:
  "deploy_random_contract poor_world demo_config demo_key start = Some (Inr True, poor_end)"
  by (simp add: deploy_random_contract_def deploy_transaction_def deploy_send_def Let_def
     bridge_to_scroll_def bridge_fee_def bridge_transaction_def bridge_send_def
     gas_price_gate.simps balance_wait.simps ask_def emit_def poor_world_def quiet_fields
     demo_config_fields start_def demo_adapter_params poor_end_def bridge_end_def
     demo_deployment_def deployment_txn_def demo_bridge_txn_def)


lemma gate_event_marks:
  "gate_event e \<Longrightarrow> \<not> balance_read e \<and> \<not> bridge_mark e \<and> \<not> attempts_deployment e"
  by (cases e) (auto simp: gate_event_def balance_read_def bridge_mark_def attempts_deployment_def
                     split: message.splits)





lemma gate_part_marks:
  "\<not> list_ex balance_read (gate_part w cfg a t k p)" "\<not> list_ex bridge_mark (gate_part w cfg a t k p)"
  "\<not> list_ex attempts_deployment (gate_part w cfg a t k p)"
  using gate_retries_events[of w "eth_rpc_url cfg" t k] gate_event_marks
  by (auto simp: gate_part_def list_all_iff list_ex_iff balance_read_def bridge_mark_def
                 attempts_deployment_def)

lemma build_part_marks:
  "\<not> list_ex balance_read (build_part cfg a p code cid n)"
  "\<not> list_ex bridge_mark (build_part cfg a p code cid n)"
  "\<not> list_ex attempts_deployment (build_part cfg a p code cid n)"
  by (simp_all add: build_part_def balance_read_def bridge_mark_def attempts_deployment_def
       deployment_txn_def is_deployment_def)


lemma deploy_send_events:
  assumes "deploy_send w cfg key a t0 st = (r, st')" and "is_deployment t0"
  obtains sev g where "trace st' = trace st @ EstimateGas (scroll_rpc_url cfg) t0 g # sev"
    "list_all send_event (EstimateGas (scroll_rpc_url cfg) t0 g # sev)"
    "\<forall>e\<in>set (EstimateGas (scroll_rpc_url cfg) t0 g # sev). \<forall>t\<in>set (event_txns e).
        t\<lparr>tx_gas := 0\<rparr> = t0\<lparr>tx_gas := 0\<rparr>"
  using assms(1)
proof (cases rule: deploy_send_cases)
  case (estimation_failed e m)
  then show ?thesis
    using that[of "Inl e" "[Log ERROR m]"] assms(2) by (simp add: send_event_def)
next
  case (sent g h rest)
  then show ?thesis
    using that[of "Inr g" "SignTransaction key (t0\<lparr>tx_gas := g\<rparr>) #
                 SendRawTransaction (scroll_rpc_url cfg) (Signed key (t0\<lparr>tx_gas := g\<rparr>)) h # rest"]
      assms(2)
    by (simp add: send_event_def is_deployment_def)
qed



section \<open>The gas price and the nonce of the deployment transaction\<close>

lemma deployment_txn_gas: "(deployment_txn a p code cid n)\<lparr>tx_gas := 0\<rparr> = deployment_txn a p code cid n"
  by (simp add: deployment_txn_def)

lemma build_part_txns:
  "e \<in> set (build_part cfg a p code cid n) \<Longrightarrow> t \<in> set (event_txns e) \<Longrightarrow>
   t = deployment_txn a p code cid n"
  by (auto simp: build_part_def)

lemma bridge_events_no_deployment:
  "list_all bridge_event bev \<Longrightarrow> e \<in> set bev \<Longrightarrow> t \<in> set (event_txns e) \<Longrightarrow> \<not> is_deployment t"
  using bridge_event_txns by (auto simp: list_all_iff)

text \<open>
  Claim C10. In every completed run of \<open>deploy_random_contract\<close>, the trace begins with the
  gate, whose last event is the accepted reading \<open>p\<close> of the gas price of the reference
  chain (\<open>eth_rpc_url\<close>), followed at once by the building of the deployment transaction with
  \<open>gasPrice = p\<close> and the nonce just read. No balance has been read and nothing of the bridge
  has happened before. Every deployment transaction that the run later estimates, signs or
  sends is that transaction, with only its gas limit changed.
\<close>

theorem deployment_gas_price_from_gate:
  assumes run: "deploy_random_contract w cfg private_key st = Some (r, st')"
    and e: "e \<in> set (new_events st st')" and t: "t \<in> set (event_txns e)"
    and d: "is_deployment t"
  shows "\<exists>k p code cid n rest.
           eth_gas_price w (eth_rpc_url cfg) (clock st + k) = Inr p
         \<and> from_wei_gwei w p \<le> max_gwei cfg
         \<and> (\<forall>i<k. \<not> acceptable w (max_gwei cfg) (eth_gas_price w (eth_rpc_url cfg) (clock st + i)))
         \<and> new_events st st' =
             gate_part w cfg (address_of w private_key) (clock st) k p
             @ build_part cfg (address_of w private_key) p code cid n @ rest
         \<and> \<not> list_ex balance_read (gate_part w cfg (address_of w private_key) (clock st) k p
                                     @ build_part cfg (address_of w private_key) p code cid n)
         \<and> \<not> list_ex bridge_mark (gate_part w cfg (address_of w private_key) (clock st) k p
                                    @ build_part cfg (address_of w private_key) p code cid n)
         \<and> t\<lparr>tx_gas := 0\<rparr> = deployment_txn (address_of w private_key) p code cid n"
proof -
  let ?a = "address_of w private_key"
  have marks: "\<not> list_ex balance_read (gate_part w cfg ?a (clock st) k p @ build_part cfg ?a p code cid n)
             \<and> \<not> list_ex bridge_mark (gate_part w cfg ?a (clock st) k p @ build_part cfg ?a p code cid n)"
    for k p code cid n
    using gate_part_marks(1,2)[of w cfg ?a "clock st" k p] build_part_marks(1,2)[of cfg ?a p code cid n]
    by simp
  have gate_no: "False" if "e \<in> set (gate_part w cfg ?a (clock st) k p)" for k p
    using gate_part_plain(3)[of w cfg ?a "clock st" k p] that t by auto
  have build_ok: "t\<lparr>tx_gas := 0\<rparr> = deployment_txn ?a p code cid n"
    if "e \<in> set (build_part cfg ?a p code cid n)" for p code cid n
    using build_part_txns[OF that t] deployment_txn_gas by simp
  have send_ok: "t\<lparr>tx_gas := 0\<rparr> = deployment_txn ?a p code cid n"
    if "\<forall>e\<in>set sev. \<forall>t\<in>set (event_txns e).
          t\<lparr>tx_gas := 0\<rparr> = (deployment_txn ?a p code cid n)\<lparr>tx_gas := 0\<rparr>" "e \<in> set sev"
    for sev p code cid n
    using that t deployment_txn_gas by simp
  from run show ?thesis
  proof (cases rule: deploy_shapes)
    case (build_raised k p x bev)
    have "e \<in> set (gate_part w cfg ?a (clock st) k p) \<or> e \<in> set bev"
      using e build_raised(5) by (auto simp: new_events_def)
    then have False using gate_no build_raised(7) t by auto
    then show ?thesis ..
  next
    case (balance_raised k p code cid n x)
    let ?rest = "[GetBalance (scroll_rpc_url cfg) ?a (Inl x)]"
    have ne: "new_events st st' = gate_part w cfg ?a (clock st) k p @ build_part cfg ?a p code cid n @ ?rest"
      using balance_raised(5) by (simp add: new_events_def)
    then have "e \<in> set (gate_part w cfg ?a (clock st) k p) \<or> e \<in> set (build_part cfg ?a p code cid n)
               \<or> e \<in> set ?rest" using e by auto
    then have "t\<lparr>tx_gas := 0\<rparr> = deployment_txn ?a p code cid n"
      using gate_no build_ok t by auto
    then show ?thesis using balance_raised(1,2,3) ne marks by blast
  next
    case (funded k p code cid n b0 st4)
    from deploy_send_events[OF funded(6) deployment_txn_is_deployment]
    obtain sev g where sev:
      "trace st' = trace st4 @ EstimateGas (scroll_rpc_url cfg) (deployment_txn ?a p code cid n) g # sev"
      "\<forall>e\<in>set (EstimateGas (scroll_rpc_url cfg) (deployment_txn ?a p code cid n) g # sev).
         \<forall>t\<in>set (event_txns e). t\<lparr>tx_gas := 0\<rparr> = (deployment_txn ?a p code cid n)\<lparr>tx_gas := 0\<rparr>"
      by metis
    let ?S = "EstimateGas (scroll_rpc_url cfg) (deployment_txn ?a p code cid n) g # sev"
    let ?rest = "GetBalance (scroll_rpc_url cfg) ?a (Inr b0) # ?S"
    have ne: "new_events st st' = gate_part w cfg ?a (clock st) k p @ build_part cfg ?a p code cid n @ ?rest"
      using funded(5) sev(1) by (simp add: new_events_def)
    then have "e \<in> set (gate_part w cfg ?a (clock st) k p) \<or> e \<in> set (build_part cfg ?a p code cid n)
               \<or> e = GetBalance (scroll_rpc_url cfg) ?a (Inr b0) \<or> e \<in> set ?S" using e by auto
    then have "t\<lparr>tx_gas := 0\<rparr> = deployment_txn ?a p code cid n"
      using gate_no build_ok send_ok[OF sev(2)] t by auto
    then show ?thesis using funded(1,2,3) ne marks by blast
  next
    case (bridge_failed k p code cid n b0 st4)
    from bridge_summary[OF bridge_failed(6)]
    obtain bev where bev: "trace st' = trace st4 @ bev" "list_all bridge_event bev" by blast
    let ?rest = "GetBalance (scroll_rpc_url cfg) ?a (Inr b0) # bev"
    have ne: "new_events st st' = gate_part w cfg ?a (clock st) k p @ build_part cfg ?a p code cid n @ ?rest"
      using bridge_failed(5) bev(1) by (simp add: new_events_def)
    then have "e \<in> set (gate_part w cfg ?a (clock st) k p) \<or> e \<in> set (build_part cfg ?a p code cid n)
               \<or> e = GetBalance (scroll_rpc_url cfg) ?a (Inr b0) \<or> e \<in> set bev" using e by auto
    then have "t\<lparr>tx_gas := 0\<rparr> = deployment_txn ?a p code cid n"
      using gate_no build_ok bridge_events_no_deployment[OF bev(2) _ t] d t by auto
    then show ?thesis using bridge_failed(1,2,3) ne marks by blast
  next
    case (bridged k p code cid n b0 st4 st5 j b1 st6)
    from bridge_summary[OF bridged(6)]
    obtain bev where bev: "trace st5 = trace st4 @ bev" "list_all bridge_event bev" by blast
    from deploy_send_events[OF bridged(11) deployment_txn_is_deployment]
    obtain sev g where sev:
      "trace st' = trace st6 @ EstimateGas (scroll_rpc_url cfg) (deployment_txn ?a p code cid n) g # sev"
      "\<forall>e\<in>set (EstimateGas (scroll_rpc_url cfg) (deployment_txn ?a p code cid n) g # sev).
         \<forall>t\<in>set (event_txns e). t\<lparr>tx_gas := 0\<rparr> = (deployment_txn ?a p code cid n)\<lparr>tx_gas := 0\<rparr>"
      by metis
    let ?S = "EstimateGas (scroll_rpc_url cfg) (deployment_txn ?a p code cid n) g # sev"
    let ?W = "Log INFO Waiting_for_bridge # wait_retries w (scroll_rpc_url cfg) ?a (clock st5) j
                @ [GetBalance (scroll_rpc_url cfg) ?a (Inr b1)]"
    let ?rest = "GetBalance (scroll_rpc_url cfg) ?a (Inr b0) # bev @ ?W @ ?S"
    have ne: "new_events st st' = gate_part w cfg ?a (clock st) k p @ build_part cfg ?a p code cid n @ ?rest"
      using bridged(5) bev(1) bridged(10) sev(1) by (simp add: new_events_def)
    then have "e \<in> set (gate_part w cfg ?a (clock st) k p) \<or> e \<in> set (build_part cfg ?a p code cid n)
               \<or> e = GetBalance (scroll_rpc_url cfg) ?a (Inr b0) \<or> e \<in> set bev
               \<or> e \<in> set ?W \<or> e \<in> set ?S" using e by auto
    moreover have "False" if "e \<in> set ?W"
      using wait_part_plain(3)[of w "scroll_rpc_url cfg" ?a "clock st5" j "Inr b1"] that t by auto
    ultimately have "t\<lparr>tx_gas := 0\<rparr> = deployment_txn ?a p code cid n"
      using gate_no build_ok send_ok[OF sev(2)] bridge_events_no_deployment[OF bev(2) _ t] d t
      by auto
    then show ?thesis using bridged(1,2,3) ne marks by blast
  qed
qed


theorem deployment_gas_price_from_gate_witness:
  "deploy_random_contract poor_world demo_config demo_key start = Some (Inr True, poor_end)
   \<and> SendRawTransaction ''scroll'' (Signed demo_key (demo_deployment\<lparr>tx_gas := 21000\<rparr>)) (Inr ''0xabc'')
        \<in> set (new_events start poor_end)
   \<and> demo_deployment\<lparr>tx_gas := 21000\<rparr>
        \<in> set (event_txns (SendRawTransaction ''scroll''
                   (Signed demo_key (demo_deployment\<lparr>tx_gas := 21000\<rparr>)) (Inr ''0xabc'')))
   \<and> is_deployment (demo_deployment\<lparr>tx_gas := 21000\<rparr>)
   \<and> (\<exists>k p code cid n rest.
           eth_gas_price poor_world (eth_rpc_url demo_config) (clock start + k) = Inr p
         \<and> from_wei_gwei poor_world p \<le> max_gwei demo_config
         \<and> (\<forall>i<k. \<not> acceptable poor_world (max_gwei demo_config)
                       (eth_gas_price poor_world (eth_rpc_url demo_config) (clock start + i)))
         \<and> new_events start poor_end =
             gate_part poor_world demo_config (address_of poor_world demo_key) (clock start) k p
             @ build_part demo_config (address_of poor_world demo_key) p code cid n @ rest
         \<and> \<not> list_ex balance_read
               (gate_part poor_world demo_config (address_of poor_world demo_key) (clock start) k p
                @ build_part demo_config (address_of poor_world demo_key) p code cid n)
         \<and> \<not> list_ex bridge_mark
               (gate_part poor_world demo_config (address_of poor_world demo_key) (clock start) k p
                @ build_part demo_config (address_of poor_world demo_key) p code cid n)
         \<and> (demo_deployment\<lparr>tx_gas := 21000\<rparr>)\<lparr>tx_gas := 0\<rparr>
             = deployment_txn (address_of poor_world demo_key) p code cid n)"
proof -
  have a: "SendRawTransaction ''scroll'' (Signed demo_key (demo_deployment\<lparr>tx_gas := 21000\<rparr>)) (Inr ''0xabc'')
        \<in> set (new_events start poor_end)"
    by (simp add: new_events_def start_def poor_end_def)
  have b: "demo_deployment\<lparr>tx_gas := 21000\<rparr>
        \<in> set (event_txns (SendRawTransaction ''scroll''
                   (Signed demo_key (demo_deployment\<lparr>tx_gas := 21000\<rparr>)) (Inr ''0xabc'')))"
    by simp
  have c: "is_deployment (demo_deployment\<lparr>tx_gas := 21000\<rparr>)"
    by (simp add: is_deployment_def demo_deployment_def deployment_txn_def)
  show ?thesis
    using poor_run a b c deployment_gas_price_from_gate [OF poor_run a b c] by blast
qed

lemma balance_read_simps [simp]: "balance_read (GetBalance rpc a r)"
  by (simp add: balance_read_def)





section \<open>The wait for the bridged funds\<close>










section \<open>The run of \<open>main\<close> over the accounts\<close>

lemma end_of_nonempty: "runs \<noteq> [] \<Longrightarrow> end_of s runs = end_of s' runs"
  by (cases runs) auto

lemma end_of_snoc [simp]: "end_of s (runs @ [(sa, r, sb)]) = sb"
  by (induction runs arbitrary: s) auto

lemma successes_simps [simp]:
  "successes [] = 0"
  "successes ((sa, Inr d, sb) # runs) = (if d then 1 else 0) + successes runs"
  by (simp_all add: successes_def succeeded_def)

lemma main_loop_completes:
  assumes "main_loop w cfg n (enumerate i keys) acc st = Some (Inr acc', st')"
    and "i + length keys = n"
  shows "\<exists>runs. list_all2 (returned w cfg) keys runs \<and> list_all completed runs
           \<and> follows (RandomSleep (min_sleep_time cfg) (max_sleep_time cfg)) st runs
           \<and> acc' = acc + int (successes runs) \<and> st' = end_of st runs"
  using assms
proof (induction keys arbitrary: i acc st)
  case Nil
  then show ?case by simp
next
  case (Cons k ks)
  let ?sep = "RandomSleep (min_sleep_time cfg) (max_sleep_time cfg)"
  from Cons.prems(1) obtain d st1 where d: "deploy_random_contract w cfg k st = Some (Inr d, st1)"
    and rest: "main_loop w cfg n (enumerate (Suc i) ks) (acc + (if d then 1 else 0))
                 (if int i \<noteq> int n - 1 then emit ?sep st1 else st1) = Some (Inr acc', st')"
    by (auto split: option.splits sum.splits prod.splits)
  from Cons.prems(2) have n: "Suc i + length ks = n" by simp
  from Cons.IH[OF rest n] obtain runs where runs:
    "list_all2 (returned w cfg) ks runs" "list_all completed runs"
    "follows ?sep (if int i \<noteq> int n - 1 then emit ?sep st1 else st1) runs"
    "acc' = acc + (if d then 1 else 0) + int (successes runs)"
    "st' = end_of (if int i \<noteq> int n - 1 then emit ?sep st1 else st1) runs"
    by blast
  have len: "length runs = length ks" using runs(1) by (simp add: list_all2_lengthD)
  have fol: "follows ?sep (emit ?sep st1) runs"
  proof (cases ks)
    case Nil
    then show ?thesis using len by simp
  next
    case (Cons a list)
    then have "int i \<noteq> int n - 1" using n by simp
    then show ?thesis using runs(3) by simp
  qed
  have fin: "st' = end_of st1 runs"
  proof (cases ks)
    case Nil
    then have "int i = int n - 1" "runs = []" using n len by simp_all
    then show ?thesis using runs(5) by simp
  next
    case (Cons a list)
    then have "runs \<noteq> []" using len by auto
    then show ?thesis using runs(5) end_of_nonempty by metis
  qed
  let ?runs = "(st, Inr d, st1) # runs"
  have "list_all2 (returned w cfg) (k # ks) ?runs" using d runs(1) by (simp add: returned_def)
  moreover have "list_all completed ?runs" using runs(2) by (simp add: completed_def)
  moreover have "follows ?sep st ?runs" using fol by simp
  moreover have "acc' = acc + int (successes ?runs)" using runs(4) by simp
  moreover have "st' = end_of st ?runs" using fin by simp
  ultimately show ?case by blast
qed

lemma completed_main_loop:
  assumes "list_all2 (returned w cfg) keys runs" and "list_all completed runs"
    and "follows (RandomSleep (min_sleep_time cfg) (max_sleep_time cfg)) st runs"
    and "i + length keys = n"
  shows "main_loop w cfg n (enumerate i keys) acc st
           = Some (Inr (acc + int (successes runs)), end_of st runs)"
  using assms
proof (induction keys runs arbitrary: i acc st rule: list_all2_induct)
  case Nil
  then show ?case by simp
next
  case (Cons k ks run runs)
  let ?sep = "RandomSleep (min_sleep_time cfg) (max_sleep_time cfg)"
  obtain sa r sb where run: "run = (sa, r, sb)" by (cases run) auto
  from Cons.prems(1) run obtain d where r: "r = Inr d" by (cases r) (auto simp: completed_def)
  from Cons.prems(2) run have sa: "sa = st" and fol: "follows ?sep (emit ?sep sb) runs" by simp_all
  from Cons.hyps(1) run r sa have d: "deploy_random_contract w cfg k st = Some (Inr d, sb)"
    by (simp add: returned_def)
  from Cons.prems(1) have comp: "list_all completed runs" by simp
  from Cons.prems(3) have n: "Suc i + length ks = n" by simp
  have len: "length runs = length ks" using Cons.hyps(2) by (simp add: list_all2_lengthD)
  show ?case
  proof (cases ks)
    case Nil
    then have "int i = int n - 1" "runs = []" using n len by simp_all
    then show ?thesis using d Nil run r by simp
  next
    case (Cons a list)
    then have ne: "int i \<noteq> int n - 1" "runs \<noteq> []" using n len by auto
    have "main_loop w cfg n (enumerate (Suc i) ks) (acc + (if d then 1 else 0)) (emit ?sep sb)
            = Some (Inr (acc + (if d then 1 else 0) + int (successes runs)), end_of (emit ?sep sb) runs)"
      using Cons.IH[OF comp fol n] by simp
    moreover have "end_of (emit ?sep sb) runs = end_of sb runs" using ne(2) by (rule end_of_nonempty)
    ultimately show ?thesis using d ne(1) run r by simp
  qed
qed

lemma main_loop_raises:
  assumes "main_loop w cfg n (enumerate i keys) acc st = Some (Inl e, st')"
    and "i + length keys = n"
  shows "\<exists>pre key post runs sa. keys = pre @ key # post
           \<and> list_all2 (returned w cfg) pre runs \<and> list_all completed runs
           \<and> follows (RandomSleep (min_sleep_time cfg) (max_sleep_time cfg)) st
                (runs @ [(sa, Inl e, st')])
           \<and> deploy_random_contract w cfg key sa = Some (Inl e, st')"
  using assms
proof (induction keys arbitrary: i acc st)
  case Nil
  then show ?case by simp
next
  case (Cons k ks)
  let ?sep = "RandomSleep (min_sleep_time cfg) (max_sleep_time cfg)"
  from Cons.prems(1) consider
    (raised) "deploy_random_contract w cfg k st = Some (Inl e, st')"
  | (went_on) d st1 where "deploy_random_contract w cfg k st = Some (Inr d, st1)"
      "main_loop w cfg n (enumerate (Suc i) ks) (acc + (if d then 1 else 0))
         (if int i \<noteq> int n - 1 then emit ?sep st1 else st1) = Some (Inl e, st')"
    by (auto split: option.splits sum.splits prod.splits)
  then show ?case
  proof cases
    case raised
    have "k # ks = [] @ k # ks" by simp
    moreover have "list_all2 (returned w cfg) [] []" "list_all completed []" by simp_all
    moreover have "follows ?sep st ([] @ [(st, Inl e, st')])" by simp
    ultimately show ?thesis using raised by blast
  next
    case went_on
    from Cons.prems(2) have n: "Suc i + length ks = n" by simp
    have "ks \<noteq> []" using went_on(2) by auto
    then have ne: "int i \<noteq> int n - 1" using n by (cases ks) auto
    then have rest: "main_loop w cfg n (enumerate (Suc i) ks) (acc + (if d then 1 else 0))
         (emit ?sep st1) = Some (Inl e, st')" using went_on(2) by simp
    from Cons.IH[OF rest n] obtain pre key post runs sa where ih:
      "ks = pre @ key # post" "list_all2 (returned w cfg) pre runs" "list_all completed runs"
      "follows ?sep (emit ?sep st1) (runs @ [(sa, Inl e, st')])"
      "deploy_random_contract w cfg key sa = Some (Inl e, st')"
      by blast
    let ?runs = "(st, Inr d, st1) # runs"
    have "k # ks = (k # pre) @ key # post" using ih(1) by simp
    moreover have "list_all2 (returned w cfg) (k # pre) ?runs"
      using went_on(1) ih(2) by (simp add: returned_def)
    moreover have "list_all completed ?runs" using ih(3) by (simp add: completed_def)
    moreover have "follows ?sep st (?runs @ [(sa, Inl e, st')])" using ih(4) by simp
    ultimately show ?thesis using ih(5) by blast
  qed
qed

lemma raising_main_loop:
  assumes "list_all2 (returned w cfg) pre runs" and "list_all completed runs"
    and "follows (RandomSleep (min_sleep_time cfg) (max_sleep_time cfg)) st
           (runs @ [(sa, Inl e, st')])"
    and "deploy_random_contract w cfg key sa = Some (Inl e, st')"
    and "i + length (pre @ key # post) = n"
  shows "main_loop w cfg n (enumerate i (pre @ key # post)) acc st = Some (Inl e, st')"
  using assms
proof (induction pre runs arbitrary: i acc st rule: list_all2_induct)
  case Nil
  then show ?case by simp
next
  case (Cons k ks run runs)
  let ?sep = "RandomSleep (min_sleep_time cfg) (max_sleep_time cfg)"
  obtain sa0 r sb where run: "run = (sa0, r, sb)" by (cases run) auto
  from Cons.prems(1) run obtain d where r: "r = Inr d" by (cases r) (auto simp: completed_def)
  from Cons.prems(2) run have sa: "sa0 = st"
    and fol: "follows ?sep (emit ?sep sb) (runs @ [(sa, Inl e, st')])" by simp_all
  from Cons.hyps(1) run r sa have d: "deploy_random_contract w cfg k st = Some (Inr d, sb)"
    by (simp add: returned_def)
  from Cons.prems(1) have comp: "list_all completed runs" by simp
  from Cons.prems(4) have n: "Suc i + length (ks @ key # post) = n" by simp
  then have ne: "int i \<noteq> int n - 1" by auto
  have "main_loop w cfg n (enumerate (Suc i) (ks @ key # post)) (acc + (if d then 1 else 0))
          (emit ?sep sb) = Some (Inl e, st')"
    using Cons.IH[OF comp fol Cons.prems(3) n] .
  then show ?case using d ne by simp
qed

lemma gate_event_attempt: "list_all gate_event evs \<Longrightarrow> list_all attempt_event evs"
  by (simp add: list_all_iff attempt_event_def)

lemma build_event_attempt: "list_all build_event evs \<Longrightarrow> list_all attempt_event evs"
  by (simp add: list_all_iff attempt_event_def)

lemma bridge_event_attempt: "list_all bridge_event evs \<Longrightarrow> list_all attempt_event evs"
  by (simp add: list_all_iff attempt_event_def)

lemma wait_event_attempt: "list_all wait_event evs \<Longrightarrow> list_all attempt_event evs"
  by (simp add: list_all_iff attempt_event_def)

lemma send_event_attempt: "list_all send_event evs \<Longrightarrow> list_all attempt_event evs"
  by (simp add: list_all_iff attempt_event_def)

lemma gate_part_attempt: "list_all attempt_event (gate_part w cfg a t k p)"
  using gate_event_attempt[OF gate_retries_events[of w "eth_rpc_url cfg" t k]]
  by (simp add: gate_part_def attempt_event_def gate_event_def)

lemma build_part_attempt: "list_all attempt_event (build_part cfg a p code cid n)"
  by (simp add: build_part_def attempt_event_def build_event_def deployment_txn_is_deployment)

lemma balance_attempt: "attempt_event (GetBalance rpc a r)"
  by (simp add: attempt_event_def wait_event_def)

lemma wait_part_attempt:
  "list_all attempt_event (Log INFO Waiting_for_bridge # wait_retries w rpc a t j @ [GetBalance rpc a r])"
  using wait_event_attempt[OF wait_retries_events[of w rpc a t j]]
  by (simp add: attempt_event_def wait_event_def)

lemma attempt_events:
  assumes "deploy_random_contract w cfg key st = Some (r, st')"
  shows "\<exists>evs. trace st' = trace st @ evs \<and> list_all attempt_event evs"
  using assms
proof (cases rule: deploy_shapes)
  case (build_raised k p x bev)
  have "list_all attempt_event (gate_part w cfg (address_of w key) (clock st) k p @ bev)"
    using gate_part_attempt build_event_attempt[OF build_raised(6)] by simp
  then show ?thesis using build_raised(5) by blast
next
  case (balance_raised k p code cid n x)
  have "list_all attempt_event (gate_part w cfg (address_of w key) (clock st) k p
                    @ build_part cfg (address_of w key) p code cid n
                    @ [GetBalance (scroll_rpc_url cfg) (address_of w key) (Inl x)])"
    using gate_part_attempt build_part_attempt balance_attempt by simp
  then show ?thesis using balance_raised(5) by blast
next
  case (funded k p code cid n b0 st4)
  let ?A = "gate_part w cfg (address_of w key) (clock st) k p
                    @ build_part cfg (address_of w key) p code cid n
                    @ [GetBalance (scroll_rpc_url cfg) (address_of w key) (Inr b0)]"
  have A: "list_all attempt_event ?A"
    using gate_part_attempt build_part_attempt balance_attempt by simp
  obtain evs where evs: "trace st' = trace st4 @ evs" "list_all send_event evs"
    using deploy_send_summary[OF funded(6) deployment_txn_is_deployment] by blast
  have "trace st' = trace st @ (?A @ evs)" using funded(5) evs(1) by simp
  moreover have "list_all attempt_event (?A @ evs)" using A send_event_attempt[OF evs(2)] by simp
  ultimately show ?thesis by blast
next
  case (bridge_failed k p code cid n b0 st4)
  let ?A = "gate_part w cfg (address_of w key) (clock st) k p
                    @ build_part cfg (address_of w key) p code cid n
                    @ [GetBalance (scroll_rpc_url cfg) (address_of w key) (Inr b0)]"
  have A: "list_all attempt_event ?A"
    using gate_part_attempt build_part_attempt balance_attempt by simp
  obtain evs where evs: "trace st' = trace st4 @ evs" "list_all bridge_event evs"
    using bridge_summary[OF bridge_failed(6)] by blast
  have "trace st' = trace st @ (?A @ evs)" using bridge_failed(5) evs(1) by simp
  moreover have "list_all attempt_event (?A @ evs)" using A bridge_event_attempt[OF evs(2)] by simp
  ultimately show ?thesis by blast
next
  case (bridged k p code cid n b0 st4 st5 j b1 st6)
  let ?A = "gate_part w cfg (address_of w key) (clock st) k p
                    @ build_part cfg (address_of w key) p code cid n
                    @ [GetBalance (scroll_rpc_url cfg) (address_of w key) (Inr b0)]"
  let ?W = "Log INFO Waiting_for_bridge #
                     wait_retries w (scroll_rpc_url cfg) (address_of w key) (clock st5) j
                     @ [GetBalance (scroll_rpc_url cfg) (address_of w key) (Inr b1)]"
  have A: "list_all attempt_event ?A"
    using gate_part_attempt build_part_attempt balance_attempt by simp
  have W: "list_all attempt_event ?W" by (rule wait_part_attempt)
  obtain bev where bev: "trace st5 = trace st4 @ bev" "list_all bridge_event bev"
    using bridge_summary[OF bridged(6)] by blast
  obtain sev where sev: "trace st' = trace st6 @ sev" "list_all send_event sev"
    using deploy_send_summary[OF bridged(11) deployment_txn_is_deployment] by blast
  have "trace st' = trace st @ (?A @ bev @ ?W @ sev)"
    using bridged(5) bev(1) bridged(10) sev(1) by simp
  moreover have "list_all attempt_event (?A @ bev @ ?W @ sev)"
    using A W bridge_event_attempt[OF bev(2)] send_event_attempt[OF sev(2)] by simp
  ultimately show ?thesis by blast
qed

lemma attempt_event_fleet:
  assumes "attempt_event e"
  shows "\<not> inter_account_sleep e \<and> \<not> tally_line e"
proof -
  have 1: "gate_event x \<Longrightarrow> \<not> inter_account_sleep x \<and> \<not> tally_line x" for x
    by (cases x) (auto simp: gate_event_def inter_account_sleep_def tally_line_def split: message.splits)
  have 2: "build_event x \<Longrightarrow> \<not> inter_account_sleep x \<and> \<not> tally_line x" for x
    by (cases x) (auto simp: build_event_def inter_account_sleep_def tally_line_def)
  have 3: "bridge_event x \<Longrightarrow> \<not> inter_account_sleep x \<and> \<not> tally_line x" for x
    by (cases x) (auto simp: bridge_event_def inter_account_sleep_def tally_line_def split: message.splits)
  have 4: "wait_event x \<Longrightarrow> \<not> inter_account_sleep x \<and> \<not> tally_line x" for x
    by (cases x) (auto simp: wait_event_def inter_account_sleep_def tally_line_def split: message.splits)
  have 5: "send_event x \<Longrightarrow> \<not> inter_account_sleep x \<and> \<not> tally_line x" for x
    by (cases x) (auto simp: send_event_def inter_account_sleep_def tally_line_def split: message.splits)
  have 6: "(case x of Log l m \<Rightarrow> (case m of Deploying_contract a \<Rightarrow> l = INFO | _ \<Rightarrow> False) | _ \<Rightarrow> False)
             \<Longrightarrow> \<not> inter_account_sleep x \<and> \<not> tally_line x" for x
    by (cases x) (auto simp: inter_account_sleep_def tally_line_def split: message.splits)
  from assms show ?thesis unfolding attempt_event_def using 1 2 3 4 5 6 by blast
qed

lemma attempt_quiet:
  assumes "deploy_random_contract w cfg key st = Some (r, st')"
  shows "\<exists>evs. trace st' = trace st @ evs \<and> filter inter_account_sleep evs = []
           \<and> \<not> list_ex tally_line evs"
proof -
  obtain evs where evs: "trace st' = trace st @ evs" "list_all attempt_event evs"
    using attempt_events[OF assms] by blast
  have "filter inter_account_sleep evs = []" "\<not> list_ex tally_line evs"
    using evs(2) attempt_event_fleet by (auto simp: list_all_iff list_ex_iff filter_empty_conv)
  then show ?thesis using evs(1) by blast
qed

lemma follows_events:
  assumes "list_all2 (returned w cfg) keys runs" and "follows sep st runs"
    and "inter_account_sleep sep" and "\<not> tally_line sep"
  shows "\<exists>evs. trace (end_of st runs) = trace st @ evs
           \<and> length (filter inter_account_sleep evs) = length runs - 1
           \<and> \<not> list_ex tally_line evs"
  using assms
proof (induction keys runs arbitrary: st rule: list_all2_induct)
  case Nil
  then show ?case by simp
next
  case (Cons k ks run runs)
  obtain sa r sb where run: "run = (sa, r, sb)" by (cases run) auto
  from Cons.prems(1) run have sa: "sa = st" and fol: "follows sep (emit sep sb) runs" by simp_all
  from Cons.hyps(1) run sa have "deploy_random_contract w cfg k st = Some (r, sb)"
    by (simp add: returned_def)
  from attempt_quiet[OF this] obtain e1 where e1: "trace sb = trace st @ e1"
    "filter inter_account_sleep e1 = []" "\<not> list_ex tally_line e1" by blast
  show ?case
  proof (cases runs)
    case Nil
    then show ?thesis using run e1 by simp
  next
    case (Cons a list)
    from Cons.IH[OF fol Cons.prems(2) Cons.prems(3)] obtain e2 where e2:
      "trace (end_of (emit sep sb) runs) = trace (emit sep sb) @ e2"
      "length (filter inter_account_sleep e2) = length runs - 1" "\<not> list_ex tally_line e2"
      by blast
    have ne: "runs \<noteq> []" using Cons by simp
    then have eq: "end_of (emit sep sb) runs = end_of sb runs" by (rule end_of_nonempty)
    have "trace (end_of st (run # runs)) = trace st @ (e1 @ sep # e2)"
      using run eq e2(1) e1(1) by (simp add: emit_def)
    moreover have "length (filter inter_account_sleep (e1 @ sep # e2)) = length (run # runs) - 1"
      using e1(2) e2(2) Cons.prems(2) ne by (cases runs) simp_all
    moreover have "\<not> list_ex tally_line (e1 @ sep # e2)"
      using e1(3) e2(3) Cons.prems(3) by simp
    ultimately show ?thesis by blast
  qed
qed

lemma greeted_emit: "emit (Log INFO (Loaded n)) (emit (Log INFO Starting) st) = greeted n st"
  by (simp add: emit_def greeted_def greeting_def)

lemma report_emit:
  "(if int n - s \<noteq> 0 then emit (Log INFO (Failed_count (int n - s))) (emit (Log INFO (Deployed s)) st)
    else emit (Log INFO (Deployed s)) st) = report n s st"
  by (simp add: emit_def report_def tally_def)

lemma main_cases:
  "main w cfg keys st =
     (case main_loop w cfg (length keys) (enumerate 0 keys) 0 (greeted (length keys) st) of
        None \<Rightarrow> None
      | Some (Inl e, st2) \<Rightarrow> Some (Inl e, st2)
      | Some (Inr s, st2) \<Rightarrow> Some (Inr (), report (length keys) s st2))"
  by (simp only: main_def Let_def greeted_emit report_emit)

lemma main_returns_iff:
  "main w cfg keys st = Some (Inr (), st') \<longleftrightarrow>
     (\<exists>runs. list_all2 (returned w cfg) keys runs \<and> list_all completed runs
        \<and> follows (RandomSleep (min_sleep_time cfg) (max_sleep_time cfg)) (greeted (length keys) st) runs
        \<and> st' = report (length keys) (int (successes runs)) (end_of (greeted (length keys) st) runs))"
proof
  assume "main w cfg keys st = Some (Inr (), st')"
  then obtain s st2 where loop: "main_loop w cfg (length keys) (enumerate 0 keys) 0
      (greeted (length keys) st) = Some (Inr s, st2)" and st': "st' = report (length keys) s st2"
    by (auto simp: main_cases split: option.splits sum.splits prod.splits)
  from main_loop_completes[OF loop] st' show "\<exists>runs. list_all2 (returned w cfg) keys runs \<and> list_all completed runs
        \<and> follows (RandomSleep (min_sleep_time cfg) (max_sleep_time cfg)) (greeted (length keys) st) runs
        \<and> st' = report (length keys) (int (successes runs)) (end_of (greeted (length keys) st) runs)"
    by auto
next
  assume "\<exists>runs. list_all2 (returned w cfg) keys runs \<and> list_all completed runs
        \<and> follows (RandomSleep (min_sleep_time cfg) (max_sleep_time cfg)) (greeted (length keys) st) runs
        \<and> st' = report (length keys) (int (successes runs)) (end_of (greeted (length keys) st) runs)"
  then obtain runs where runs: "list_all2 (returned w cfg) keys runs" "list_all completed runs"
    "follows (RandomSleep (min_sleep_time cfg) (max_sleep_time cfg)) (greeted (length keys) st) runs"
    "st' = report (length keys) (int (successes runs)) (end_of (greeted (length keys) st) runs)"
    by blast
  have "main_loop w cfg (length keys) (enumerate 0 keys) 0 (greeted (length keys) st)
          = Some (Inr (0 + int (successes runs)), end_of (greeted (length keys) st) runs)"
    using runs(1,2,3) by (rule completed_main_loop) simp
  then show "main w cfg keys st = Some (Inr (), st')" using runs(4) by (simp add: main_cases)
qed

lemma main_raises_iff:
  "main w cfg keys st = Some (Inl e, st') \<longleftrightarrow>
     (\<exists>pre key post runs sa. keys = pre @ key # post
        \<and> list_all2 (returned w cfg) pre runs \<and> list_all completed runs
        \<and> follows (RandomSleep (min_sleep_time cfg) (max_sleep_time cfg)) (greeted (length keys) st)
             (runs @ [(sa, Inl e, st')])
        \<and> deploy_random_contract w cfg key sa = Some (Inl e, st'))"
proof
  assume "main w cfg keys st = Some (Inl e, st')"
  then have loop: "main_loop w cfg (length keys) (enumerate 0 keys) 0
      (greeted (length keys) st) = Some (Inl e, st')"
    by (auto simp: main_cases split: option.splits sum.splits prod.splits)
  from main_loop_raises[OF loop] show "\<exists>pre key post runs sa. keys = pre @ key # post
        \<and> list_all2 (returned w cfg) pre runs \<and> list_all completed runs
        \<and> follows (RandomSleep (min_sleep_time cfg) (max_sleep_time cfg)) (greeted (length keys) st)
             (runs @ [(sa, Inl e, st')])
        \<and> deploy_random_contract w cfg key sa = Some (Inl e, st')"
    by simp
next
  assume "\<exists>pre key post runs sa. keys = pre @ key # post
        \<and> list_all2 (returned w cfg) pre runs \<and> list_all completed runs
        \<and> follows (RandomSleep (min_sleep_time cfg) (max_sleep_time cfg)) (greeted (length keys) st)
             (runs @ [(sa, Inl e, st')])
        \<and> deploy_random_contract w cfg key sa = Some (Inl e, st')"
  then obtain pre key post runs sa where h: "keys = pre @ key # post"
    "list_all2 (returned w cfg) pre runs" "list_all completed runs"
    "follows (RandomSleep (min_sleep_time cfg) (max_sleep_time cfg)) (greeted (length keys) st)
             (runs @ [(sa, Inl e, st')])"
    "deploy_random_contract w cfg key sa = Some (Inl e, st')"
    by blast
  have "main_loop w cfg (length keys) (enumerate 0 (pre @ key # post)) 0 (greeted (length keys) st)
          = Some (Inl e, st')"
    using h(2,3,4,5) by (rule raising_main_loop) (simp add: h(1))
  then show "main w cfg keys st = Some (Inl e, st')" using h(1) by (simp add: main_cases)
qed

lemma mixed_fields:
  "eth_chain_id mixed_world rpc t = Inr 1"
  "eth_gas_price mixed_world rpc t = Inr 20000000000"
  "eth_get_transaction_count mixed_world rpc a t = Inr 7"
  "eth_get_balance mixed_world rpc a t = Inr 1000000000000000000"
  "eth_estimate_gas mixed_world rpc tr t =
     (if tx_from tr = ''0xb2'' then Inl (Exception ''insufficient funds for gas * price + value'')
      else Inr 21000)"
  "eth_send_raw_transaction mixed_world rpc s t = Inr ''0xabc''"
  "wait_for_transaction_receipt mixed_world rpc h t = Inr (Some \<lparr>status = 1, contractAddress = ''0xC0DE''\<rparr>)"
  "compile_random_contract mixed_world lo hi t = Inr ''6080''"
  "from_wei_gwei mixed_world p = of_int p / 10 ^ 9"
  "to_wei_ether mixed_world (1 / 100) = 10000000000000000"
  "address_of mixed_world private_key = ''0x'' @ private_key"
  by (simp_all add: mixed_world_def quiet_world_def)

lemma mixed_deployed:
  assumes "private_key \<noteq> ''b2''"
  shows "deploy_random_contract mixed_world demo_config private_key st
           = Some (Inr True, st\<lparr>clock := clock st + 8,
                                 trace := trace st @ deployed_attempt private_key\<rparr>)"
  using assms
  by (simp add: deploy_random_contract_def deploy_transaction_def deploy_send_def Let_def
     gas_price_gate.simps ask_def emit_def mixed_fields demo_config_fields
     deployed_attempt_def deployment_txn_def)

lemma mixed_unfunded:
  "deploy_random_contract mixed_world demo_config ''b2'' st
     = Some (Inr False, st\<lparr>clock := clock st + 6, trace := trace st @ unfunded_attempt ''b2''\<rparr>)"
  by (simp add: deploy_random_contract_def deploy_transaction_def deploy_send_def Let_def
     gas_price_gate.simps ask_def emit_def mixed_fields demo_config_fields
     unfunded_attempt_def deployment_txn_def)

lemma mixed_fleet_run: "main mixed_world demo_config fleet_keys start = Some (Inr (), fleet_end)"
  by (simp add: main_def fleet_keys_def Let_def mixed_deployed mixed_unfunded emit_def
      demo_config_fields start_def fleet_end_def)

lemma faulty_fields:
  "eth_chain_id faulty_compiler_world rpc t = Inr 1"
  "eth_gas_price faulty_compiler_world rpc t = Inr 20000000000"
  "eth_get_transaction_count faulty_compiler_world rpc a t = Inr 7"
  "eth_get_balance faulty_compiler_world rpc a t = Inr 1000000000000000000"
  "eth_estimate_gas faulty_compiler_world rpc tr t = Inr 21000"
  "eth_send_raw_transaction faulty_compiler_world rpc s t = Inr ''0xabc''"
  "wait_for_transaction_receipt faulty_compiler_world rpc h t
     = Inr (Some \<lparr>status = 1, contractAddress = ''0xC0DE''\<rparr>)"
  "compile_random_contract faulty_compiler_world lo hi t =
     (if t = 1 then Inl (Exception ''SolcError'') else Inr ''6080'')"
  "from_wei_gwei faulty_compiler_world p = of_int p / 10 ^ 9"
  "to_wei_ether faulty_compiler_world (1 / 100) = 10000000000000000"
  "address_of faulty_compiler_world private_key = ''0x'' @ private_key"
  by (simp_all add: faulty_compiler_world_def quiet_world_def)

lemma abort_run:
  "main faulty_compiler_world demo_config [''a1'', ''b2''] start
     = Some (Inl (Exception ''SolcError''), abort_end)"
  by (simp add: main_def Let_def deploy_random_contract_def deploy_transaction_def
      gas_price_gate.simps ask_def emit_def faulty_fields demo_config_fields start_def abort_end_def)

lemma tally_inj:
  assumes "xs @ tally n s = ys @ tally n s'"
  shows "s = s'"
proof -
  have "xs @ [a, b] \<noteq> ys @ [Log INFO (Deployed c)]" if "b = Log INFO (Failed_count f)" for xs ys a b c f
  proof
    assume "xs @ [a, b] = ys @ [Log INFO (Deployed c)]"
    then have "(xs @ [a]) @ [b] = ys @ [Log INFO (Deployed c)]" by simp
    then have "b = Log INFO (Deployed c)" by (simp only: append1_eq_conv)
    then show False using that by simp
  qed
  note mixed = this
  show ?thesis
  proof (cases "int n - s \<noteq> 0"; cases "int n - s' \<noteq> 0")
    assume "int n - s \<noteq> 0" "int n - s' \<noteq> 0"
    then show ?thesis using assms by (simp add: tally_def)
  next
    assume "int n - s \<noteq> 0" "\<not> int n - s' \<noteq> 0"
    then show ?thesis using assms mixed[OF refl, of xs "Log INFO (Deployed s)" "int n - s" ys s']
      by (simp add: tally_def)
  next
    assume "\<not> int n - s \<noteq> 0" "int n - s' \<noteq> 0"
    then show ?thesis using assms mixed[OF refl, of ys "Log INFO (Deployed s')" "int n - s'" xs s]
      by (simp add: tally_def)
  next
    assume "\<not> int n - s \<noteq> 0" "\<not> int n - s' \<noteq> 0"
    then show ?thesis by simp
  qed
qed

lemma main_sleeps:
  assumes "main w cfg keys st = Some (Inr (), st')"
  shows "length (filter inter_account_sleep (new_events st st')) = length keys - 1"
proof -
  let ?sep = "RandomSleep (min_sleep_time cfg) (max_sleep_time cfg)"
  let ?n = "length keys"
  from assms obtain runs where runs: "list_all2 (returned w cfg) keys runs"
    "follows ?sep (greeted ?n st) runs"
    "st' = report ?n (int (successes runs)) (end_of (greeted ?n st) runs)"
    unfolding main_returns_iff by blast
  have "inter_account_sleep ?sep" "\<not> tally_line ?sep"
    by (simp_all add: inter_account_sleep_def tally_line_def)
  from follows_events[OF runs(1,2) this] obtain evs where evs:
    "trace (end_of (greeted ?n st) runs) = trace (greeted ?n st) @ evs"
    "length (filter inter_account_sleep evs) = length runs - 1"
    by blast
  have "trace st' = trace st @ (greeting ?n @ evs @ tally ?n (int (successes runs)))"
    using runs(3) evs(1) by (simp add: report_def greeted_def)
  then have "new_events st st' = greeting ?n @ evs @ tally ?n (int (successes runs))"
    by (rule new_events_append)
  moreover have "filter inter_account_sleep (greeting ?n) = []"
    "filter inter_account_sleep (tally ?n (int (successes runs))) = []"
    by (simp_all add: greeting_def tally_def inter_account_sleep_def)
  moreover have "length runs = ?n" using runs(1) by (simp add: list_all2_lengthD)
  ultimately show ?thesis using evs(2) by simp
qed

lemma main_raises_no_tally:
  assumes "main w cfg keys st = Some (Inl e, st')"
  shows "\<not> list_ex tally_line (new_events st st')"
proof -
  let ?sep = "RandomSleep (min_sleep_time cfg) (max_sleep_time cfg)"
  let ?n = "length keys"
  from assms obtain pre key post runs sa where h: "keys = pre @ key # post"
    "list_all2 (returned w cfg) pre runs"
    "follows ?sep (greeted ?n st) (runs @ [(sa, Inl e, st')])"
    "deploy_random_contract w cfg key sa = Some (Inl e, st')"
    unfolding main_raises_iff by blast
  have all: "list_all2 (returned w cfg) (pre @ [key]) (runs @ [(sa, Inl e, st')])"
    using h(2,4) by (simp add: list_all2_appendI returned_def)
  have "inter_account_sleep ?sep" "\<not> tally_line ?sep"
    by (simp_all add: inter_account_sleep_def tally_line_def)
  from follows_events[OF all h(3) this] obtain evs where evs:
    "trace st' = trace (greeted ?n st) @ evs" "\<not> list_ex tally_line evs"
    by auto
  have "trace st' = trace st @ (greeting ?n @ evs)" using evs(1) by (simp add: greeted_def)
  then have "new_events st st' = greeting ?n @ evs" by (rule new_events_append)
  then show ?thesis using evs(2) by (simp add: greeting_def tally_line_def)
qed

text \<open>
  Claim C9. A run of \<open>main\<close> over the accounts \<open>private_keys\<close> returns exactly when the
  attempts for the accounts, made one after the other in the order of the list, each return
  a boolean: the first attempt starts after the two opening log lines, every later one
  starts where the one before it ended plus one \<open>random_sleep\<close>, and after the last attempt
  nothing but the tally is added: the line \<open>Deployed s\<close> with \<open>s\<close> the number of attempts that
  returned \<open>True\<close> and, when \<open>n - s\<close> is not zero, the line \<open>Failed to deploy n - s\<close>, \<open>n\<close>
  being the number of accounts. Such a run contains exactly \<open>n - 1\<close> inter-account sleeps.
\<close>

theorem fleet_run_tally:
  "(main w cfg private_keys st = Some (Inr (), st') \<longleftrightarrow>
      (\<exists>runs. list_all2 (returned w cfg) private_keys runs \<and> list_all completed runs
         \<and> follows (RandomSleep (min_sleep_time cfg) (max_sleep_time cfg))
              (greeted (length private_keys) st) runs
         \<and> st' = report (length private_keys) (int (successes runs))
                   (end_of (greeted (length private_keys) st) runs)))
   \<and> (main w cfg private_keys st = Some (Inr (), st') \<longrightarrow>
        length (filter inter_account_sleep (new_events st st')) = length private_keys - 1)"
proof (intro conjI impI)
  show "main w cfg private_keys st = Some (Inr (), st') \<longleftrightarrow>
      (\<exists>runs. list_all2 (returned w cfg) private_keys runs \<and> list_all completed runs
         \<and> follows (RandomSleep (min_sleep_time cfg) (max_sleep_time cfg))
              (greeted (length private_keys) st) runs
         \<and> st' = report (length private_keys) (int (successes runs))
                   (end_of (greeted (length private_keys) st) runs))"
    by (rule main_returns_iff)
next
  assume "main w cfg private_keys st = Some (Inr (), st')"
  then show "length (filter inter_account_sleep (new_events st st')) = length private_keys - 1"
    by (rule main_sleeps)
qed

theorem fleet_run_tally_witness:
  "main mixed_world demo_config fleet_keys start = Some (Inr (), fleet_end)
   \<and> length fleet_keys = 3
   \<and> length (filter inter_account_sleep (new_events start fleet_end)) = 2
   \<and> (\<exists>runs. list_all2 (returned mixed_world demo_config) fleet_keys runs
         \<and> list_all completed runs
         \<and> follows (RandomSleep 1 5) (greeted 3 start) runs
         \<and> successes runs = 2
         \<and> fleet_end = report 3 2 (end_of (greeted 3 start) runs))"
proof -
  note t = fleet_run_tally [where w = mixed_world and cfg = demo_config
             and private_keys = fleet_keys and st = start and st' = fleet_end]
  have len: "length fleet_keys = 3" by (simp add: fleet_keys_def)
  have sl: "length (filter inter_account_sleep (new_events start fleet_end)) = 2"
    using t mixed_fleet_run len by simp
  from t mixed_fleet_run obtain runs where runs:
    "list_all2 (returned mixed_world demo_config) fleet_keys runs" "list_all completed runs"
    "follows (RandomSleep (min_sleep_time demo_config) (max_sleep_time demo_config))
       (greeted (length fleet_keys) start) runs"
    "fleet_end = report (length fleet_keys) (int (successes runs))
                   (end_of (greeted (length fleet_keys) start) runs)"
    by blast
  have "trace fleet_end =
          ([Log INFO Starting, Log INFO (Loaded 3)]
              @ deployed_attempt ''a1'' @ [RandomSleep 1 5]
              @ unfunded_attempt ''b2'' @ [RandomSleep 1 5]
              @ deployed_attempt ''c3'') @ tally 3 2"
    by (simp add: fleet_end_def tally_def)
  moreover have "trace fleet_end
      = trace (end_of (greeted 3 start) runs) @ tally 3 (int (successes runs))"
    using arg_cong [OF runs(4), of trace] by (simp add: report_def len)
  ultimately have "int (successes runs) = 2" using tally_inj by metis
  then have s: "successes runs = 2" by simp
  have f: "follows (RandomSleep 1 5) (greeted 3 start) runs"
    using runs(3) len by (simp add: demo_config_fields)
  have e: "fleet_end = report 3 2 (end_of (greeted 3 start) runs)"
    using runs(4) len s by simp
  show ?thesis using mixed_fleet_run len sl runs(1,2) f s e by blast
qed

text \<open>
  Claim C2, as the code has it. \<open>main\<close> has no handler around \<open>deploy_random_contract\<close>
  (lines 232--235). A run of \<open>main\<close> ends with the exception \<open>e\<close> exactly when the attempt for
  some account raises \<open>e\<close>, the attempts for the accounts before it having each returned a
  boolean; the run then ends in the state in which that attempt raised: the accounts after
  it are not attempted, and no tally line is logged. Only a failure that an attempt reports
  by returning \<open>False\<close> is contained: when every attempt returns a boolean, \<open>main\<close> returns
  and logs the tally.
\<close>

theorem exception_ends_fleet_run:
  "(main w cfg private_keys st = Some (Inl e, st') \<longleftrightarrow>
      (\<exists>pre private_key post runs sa. private_keys = pre @ private_key # post
         \<and> list_all2 (returned w cfg) pre runs \<and> list_all completed runs
         \<and> follows (RandomSleep (min_sleep_time cfg) (max_sleep_time cfg))
              (greeted (length private_keys) st) (runs @ [(sa, Inl e, st')])
         \<and> deploy_random_contract w cfg private_key sa = Some (Inl e, st')))
   \<and> (main w cfg private_keys st = Some (Inl e, st') \<longrightarrow>
        \<not> list_ex tally_line (new_events st st'))
   \<and> (list_all2 (returned w cfg) private_keys all_runs \<and> list_all completed all_runs
        \<and> follows (RandomSleep (min_sleep_time cfg) (max_sleep_time cfg))
             (greeted (length private_keys) st) all_runs \<longrightarrow>
       main w cfg private_keys st
         = Some (Inr (), report (length private_keys) (int (successes all_runs))
                           (end_of (greeted (length private_keys) st) all_runs)))"
proof (intro conjI impI)
  show "main w cfg private_keys st = Some (Inl e, st') \<longleftrightarrow>
      (\<exists>pre private_key post runs sa. private_keys = pre @ private_key # post
         \<and> list_all2 (returned w cfg) pre runs \<and> list_all completed runs
         \<and> follows (RandomSleep (min_sleep_time cfg) (max_sleep_time cfg))
              (greeted (length private_keys) st) (runs @ [(sa, Inl e, st')])
         \<and> deploy_random_contract w cfg private_key sa = Some (Inl e, st'))"
    by (rule main_raises_iff)
next
  assume "main w cfg private_keys st = Some (Inl e, st')"
  then show "\<not> list_ex tally_line (new_events st st')" by (rule main_raises_no_tally)
next
  assume "list_all2 (returned w cfg) private_keys all_runs \<and> list_all completed all_runs
        \<and> follows (RandomSleep (min_sleep_time cfg) (max_sleep_time cfg))
             (greeted (length private_keys) st) all_runs"
  then show "main w cfg private_keys st
         = Some (Inr (), report (length private_keys) (int (successes all_runs))
                           (end_of (greeted (length private_keys) st) all_runs))"
    unfolding main_returns_iff by blast
qed

theorem exception_ends_fleet_run_witness:
  "main faulty_compiler_world demo_config [''a1'', ''b2''] start
     = Some (Inl (Exception ''SolcError''), abort_end)
   \<and> \<not> list_ex tally_line (new_events start abort_end)
   \<and> (\<exists>pre private_key post runs sa. [''a1'', ''b2''] = pre @ private_key # post
         \<and> list_all2 (returned faulty_compiler_world demo_config) pre runs
         \<and> list_all completed runs
         \<and> follows (RandomSleep 1 5) (greeted 2 start)
              (runs @ [(sa, Inl (Exception ''SolcError''), abort_end)])
         \<and> deploy_random_contract faulty_compiler_world demo_config private_key sa
             = Some (Inl (Exception ''SolcError''), abort_end))
   \<and> returned mixed_world demo_config ''b2''
        (greeted 1 start, Inr False,
         (greeted 1 start)\<lparr>clock := 6, trace := trace (greeted 1 start) @ unfunded_attempt ''b2''\<rparr>)
   \<and> main mixed_world demo_config [''b2''] start = Some (Inr (), lone_end)"
proof -
  note t = exception_ends_fleet_run [where w = faulty_compiler_world and cfg = demo_config
             and private_keys = "[''a1'', ''b2'']" and st = start
             and e = "Exception ''SolcError''" and st' = abort_end]
  have 1: "\<not> list_ex tally_line (new_events start abort_end)" using t abort_run by blast
  have "\<exists>pre private_key post runs sa. [''a1'', ''b2''] = pre @ private_key # post
         \<and> list_all2 (returned faulty_compiler_world demo_config) pre runs
         \<and> list_all completed runs
         \<and> follows (RandomSleep (min_sleep_time demo_config) (max_sleep_time demo_config))
              (greeted (length [''a1'', ''b2'']) start)
              (runs @ [(sa, Inl (Exception ''SolcError''), abort_end)])
         \<and> deploy_random_contract faulty_compiler_world demo_config private_key sa
             = Some (Inl (Exception ''SolcError''), abort_end)"
    using t abort_run by blast
  moreover have "length [''a1'', ''b2''] = 2" by simp
  ultimately have 2: "\<exists>pre private_key post runs sa. [''a1'', ''b2''] = pre @ private_key # post
         \<and> list_all2 (returned faulty_compiler_world demo_config) pre runs
         \<and> list_all completed runs
         \<and> follows (RandomSleep 1 5) (greeted 2 start)
              (runs @ [(sa, Inl (Exception ''SolcError''), abort_end)])
         \<and> deploy_random_contract faulty_compiler_world demo_config private_key sa
             = Some (Inl (Exception ''SolcError''), abort_end)"
    by (simp only: demo_config_fields)
  let ?run = "(greeted 1 start, Inr False,
         (greeted 1 start)\<lparr>clock := 6, trace := trace (greeted 1 start) @ unfunded_attempt ''b2''\<rparr>)"
  have 3: "returned mixed_world demo_config ''b2'' ?run"
    by (simp add: returned_def mixed_unfunded greeted_def start_def)
  have "main mixed_world demo_config [''b2''] start
         = Some (Inr (), report (length [''b2'']) (int (successes [?run]))
                           (end_of (greeted (length [''b2'']) start) [?run]))"
    using 3 exception_ends_fleet_run [where w = mixed_world and cfg = demo_config
              and private_keys = "[''b2'']" and st = start and all_runs = "[?run]"]
    by (simp add: completed_def)
  moreover have "report (length [''b2'']) (int (successes [?run]))
                   (end_of (greeted (length [''b2'']) start) [?run]) = lone_end"
    by (simp add: report_def tally_def greeted_def greeting_def start_def lone_end_def)
  ultimately have 4: "main mixed_world demo_config [''b2''] start = Some (Inr (), lone_end)"
    by simp
  show ?thesis using abort_run 1 2 3 4 by blast
qed

text \<open>
  Claim C2 as the specification states it does not hold. The compiler fails during the
  attempt for the first of two accounts: \<open>main\<close> ends with that exception, the trace holds
  no attempt for the second account and no tally, although the attempt for the second
  account would have deployed its contract.
\<close>

theorem compile_error_ends_run_counterexample:
  "main faulty_compiler_world demo_config [''a1'', ''b2''] start
     = Some (Inl (Exception ''SolcError''), abort_end)
   \<and> \<not> list_ex tally_line (trace abort_end)
   \<and> \<not> list_ex (\<lambda>e. e = Log INFO (Deploying_contract ''0xb2'')) (trace abort_end)
   \<and> (\<exists>st''. deploy_random_contract faulty_compiler_world demo_config ''b2''
                (emit (RandomSleep 1 5) abort_end) = Some (Inr True, st''))"
proof -
  have 1: "\<not> list_ex tally_line (trace abort_end)"
    by (simp add: abort_end_def tally_line_def)
  have 2: "\<not> list_ex (\<lambda>e. e = Log INFO (Deploying_contract ''0xb2'')) (trace abort_end)"
    by (simp add: abort_end_def)
  have 3: "\<exists>st''. deploy_random_contract faulty_compiler_world demo_config ''b2''
                (emit (RandomSleep 1 5) abort_end) = Some (Inr True, st'')"
    by (simp add: deploy_random_contract_def deploy_transaction_def deploy_send_def Let_def
     gas_price_gate.simps ask_def emit_def faulty_fields demo_config_fields abort_end_def)
  show ?thesis using abort_run 1 2 3 by blast
qed

end
